theory Spec2Isabelle
  imports Main "HOL-Library.Multiset" "HOL-Library.Char_ord" "HOL-Library.List_Lexorder"
begin

section \<open>Python strings\<close>

text \<open>
  A Python \<open>str\<close> is modelled as a \<open>string\<close>: the list of its code points, each
  an 8-bit \<open>char\<close>, so the texts of the model are those whose code points lie in
  \<open>0..255\<close>. On that range \<open>isspace\<close> and \<open>lower\<close> below are the ones of
  \<open>str.isspace\<close> and \<open>str.lower\<close>.
\<close>

abbreviation NL :: char where "NL \<equiv> CHR 0x0A"
abbreviation BSL :: char where "BSL \<equiv> CHR 0x5C"

definition whitespace_chars :: "char list" where
  "whitespace_chars = [CHR 0x09, CHR 0x0A, CHR 0x0B, CHR 0x0C, CHR 0x0D,
     CHR 0x1C, CHR 0x1D, CHR 0x1E, CHR 0x1F, CHR 0x20, CHR 0x85, CHR 0xA0]"

definition isspace :: "char \<Rightarrow> bool" where
  "isspace c = (c \<in> set whitespace_chars)"

definition is_upper_AZ :: "char \<Rightarrow> bool" where
  "is_upper_AZ c = (65 \<le> (of_char c :: nat) \<and> (of_char c :: nat) \<le> 90)"

definition is_lower_az :: "char \<Rightarrow> bool" where
  "is_lower_az c = (97 \<le> (of_char c :: nat) \<and> (of_char c :: nat) \<le> 122)"

definition is_digit :: "char \<Rightarrow> bool" where
  "is_digit c = (48 \<le> (of_char c :: nat) \<and> (of_char c :: nat) \<le> 57)"

definition lower_char :: "char \<Rightarrow> char" where
  "lower_char c =
     (let n = (of_char c :: nat)
      in if (65 \<le> n \<and> n \<le> 90) \<or> (192 \<le> n \<and> n \<le> 222 \<and> n \<noteq> 215)
         then char_of (n + 32) else c)"

definition lower :: "string \<Rightarrow> string" where
  "lower s = map lower_char s"

definition lstrip :: "string \<Rightarrow> string" where
  "lstrip s = dropWhile isspace s"

definition rstrip :: "string \<Rightarrow> string" where
  "rstrip s = rev (dropWhile isspace (rev s))"

definition strip :: "string \<Rightarrow> string" where
  "strip s = lstrip (rstrip s)"

text \<open>\<open>startswith s p\<close> is \<open>s.startswith(p)\<close>; \<open>contains sub s\<close> is \<open>sub in s\<close>.\<close>

fun startswith :: "string \<Rightarrow> string \<Rightarrow> bool" where
  "startswith s [] = True"
| "startswith [] (p # ps) = False"
| "startswith (c # cs) (p # ps) = (c = p \<and> startswith cs ps)"

definition endswith :: "string \<Rightarrow> string \<Rightarrow> bool" where
  "endswith s p = startswith (rev s) (rev p)"

fun contains :: "string \<Rightarrow> string \<Rightarrow> bool" where
  "contains sub [] = (sub = [])"
| "contains sub (c # cs) = (startswith (c # cs) sub \<or> contains sub cs)"

text \<open>\<open>s.split(c)\<close> for a one-character separator, and \<open>sep.join(xs)\<close>.\<close>

fun split_on :: "char \<Rightarrow> string \<Rightarrow> string list" where
  "split_on c [] = [[]]"
| "split_on c (x # xs) =
     (if x = c then [] # split_on c xs
      else (case split_on c xs of [] \<Rightarrow> [[x]] | w # ws \<Rightarrow> (x # w) # ws))"

fun join :: "string \<Rightarrow> string list \<Rightarrow> string" where
  "join sep [] = []"
| "join sep [x] = x"
| "join sep (x # y # ys) = x @ sep @ join sep (y # ys)"

text \<open>\<open>s.split()\<close>: the maximal runs of non-whitespace characters.\<close>

fun py_words :: "string \<Rightarrow> string list" where
  "py_words [] = []"
| "py_words (c # cs) =
     (if isspace c then py_words cs
      else (case cs of
              [] \<Rightarrow> [[c]]
            | d # ds \<Rightarrow>
                if isspace d then [c] # py_words cs
                else (case py_words cs of [] \<Rightarrow> [[c]] | w # ws \<Rightarrow> (c # w) # ws)))"

text \<open>\<open>s.count(c)\<close> for one character and \<open>s.count(sub)\<close> (occurrences that do not overlap).\<close>

definition count_char :: "char \<Rightarrow> string \<Rightarrow> nat" where
  "count_char c s = length (filter (\<lambda>x. x = c) s)"

function count_sub :: "string \<Rightarrow> string \<Rightarrow> nat" where
  "count_sub sub [] = (if sub = [] then 1 else 0)"
| "count_sub sub (c # cs) =
     (if sub = [] then Suc (count_sub sub cs)
      else if startswith (c # cs) sub then Suc (count_sub sub (drop (length sub) (c # cs)))
      else count_sub sub cs)"
  by pat_completeness auto
termination
  by (relation "measure (\<lambda>(sub, s). length s)") auto

text \<open>\<open>s.replace(old, new)\<close>: every occurrence, left to right, without overlap.\<close>

function str_replace :: "string \<Rightarrow> string \<Rightarrow> string \<Rightarrow> string" where
  "str_replace old new [] = (if old = [] then new else [])"
| "str_replace old new (c # cs) =
     (if old = [] then new @ c # str_replace old new cs
      else if startswith (c # cs) old
           then new @ str_replace old new (drop (length old) (c # cs))
      else c # str_replace old new cs)"
  by pat_completeness auto
termination
  by (relation "measure (\<lambda>(old, new, s). length s)") auto


section \<open>Regular expressions\<close>

text \<open>
  The patterns that the source hands to \<open>re.match\<close> are sequences of anchors, single
  characters and repeated single characters. \<open>Rep a lo hi\<close> is \<open>a{lo,hi}\<close>, with
  \<open>None\<close> for no upper bound (\<open>a*\<close> is \<open>Rep a 0 None\<close>, \<open>a+\<close> is
  \<open>Rep a 1 None\<close>). \<open>Dot\<close> is \<open>.\<close>, which matches anything but a newline,
  \<open>Bol\<close> is \<open>^\<close> and \<open>Eol\<close> is \<open>$\<close>, which matches at the end and before a
  final newline. \<open>re.match\<close> asks for a match that starts at the first character and
  may end anywhere; whether one exists does not depend on greediness.
\<close>

datatype rx_atom = Lit char | Dot | NoneOf "char list"

datatype rx_item = One rx_atom | Rep rx_atom nat "nat option" | Bol | Eol

fun atom_ok :: "rx_atom \<Rightarrow> char \<Rightarrow> bool" where
  "atom_ok (Lit a) c = (c = a)"
| "atom_ok Dot c = (c \<noteq> NL)"
| "atom_ok (NoneOf cs) c = (c \<notin> set cs)"

fun dec_bound :: "nat option \<Rightarrow> nat option" where
  "dec_bound None = None"
| "dec_bound (Some h) = Some (h - 1)"

fun rx_match :: "rx_item list \<Rightarrow> bool \<Rightarrow> string \<Rightarrow> bool" where
  "rx_match [] at_start s = True"
| "rx_match (Bol # r) at_start s = (at_start \<and> rx_match r at_start s)"
| "rx_match (Eol # r) at_start s = ((s = [] \<or> s = [NL]) \<and> rx_match r at_start s)"
| "rx_match (One a # r) at_start [] = False"
| "rx_match (One a # r) at_start (c # cs) = (atom_ok a c \<and> rx_match r False cs)"
| "rx_match (Rep a (Suc lo) hi # r) at_start [] = False"
| "rx_match (Rep a (Suc lo) hi # r) at_start (c # cs) =
     (hi \<noteq> Some 0 \<and> atom_ok a c \<and> rx_match (Rep a lo (dec_bound hi) # r) False cs)"
| "rx_match (Rep a 0 hi # r) at_start [] = rx_match r at_start []"
| "rx_match (Rep a 0 hi # r) at_start (c # cs) =
     (rx_match r at_start (c # cs) \<or>
      (hi \<noteq> Some 0 \<and> atom_ok a c \<and> rx_match (Rep a 0 (dec_bound hi) # r) False cs))"

definition re_match_items :: "rx_item list \<Rightarrow> string \<Rightarrow> bool" where
  "re_match_items items s = rx_match items True s"

section \<open>content\_filters.py: ContentCleaner\<close>

text \<open>
  The three pattern lists are fields of the cleaner, since the configurable cleaner
  extends them. (\<open>content_indicators\<close> is never read.)
\<close>

record cleaner =
  nav_indicators :: "string list"
  footer_indicators :: "string list"
  skip_patterns :: "string list"

definition ContentCleaner :: cleaner where
  "ContentCleaner = \<lparr>
     nav_indicators = [''search'', ''menu'', ''navigation'', ''navbar'', ''sidebar'',
       ''breadcrumb'', ''home'', ''contact'', ''about'', ''login'', ''sign in'', ''sign up'',
       ''register'', ''skip to content'', ''skip to main'', ''toggle menu'', ''close menu''],
     footer_indicators = [''copyright'', [CHR 0xA9], ''all rights reserved'',
       ''privacy policy'', ''terms of service'', ''terms of use'', ''cookie policy'',
       ''was this page helpful'', ''feedback'', ''x.com'', ''twitter.com'', ''linkedin.com'',
       ''facebook.com'', ''github.com'', ''on this page'', ''yesno'', ''rate this page'',
       ''improve this page'', ''last modified'', ''last updated'', ''edit this page''],
     skip_patterns = [''copy page'', ''copy link'', ''share this'', ''print this page'',
       ''bookmark'', ''loading...'', ''please wait'', ''skip to content'',
       ''toggle navigation''] \<rparr>"

subsection \<open>Run-on-line repair\<close>

text \<open>
  \<open>re.sub(r'(?<![eg])(?<![ie])\. ([A-Z])', r'.\n\n\1', markdown)\<close>. The first argument is
  the character before the current position, \<open>None\<close> at the start of the text, where
  both look-behinds succeed.
\<close>

fun add_sentence_breaks :: "char option \<Rightarrow> string \<Rightarrow> string" where
  "add_sentence_breaks prev (c1 # c2 # c3 # cs) =
     (if c1 = CHR ''.'' \<and> c2 = CHR '' '' \<and> is_upper_AZ c3
         \<and> (case prev of None \<Rightarrow> True
              | Some p \<Rightarrow> p \<notin> set ''eg'' \<and> p \<notin> set ''ie'')
      then [CHR ''.'', NL, NL, c3] @ add_sentence_breaks (Some c3) cs
      else c1 # add_sentence_breaks (Some c1) (c2 # c3 # cs))"
| "add_sentence_breaks prev s = s"

text \<open>
  \<open>re.sub(r'(?<!\n)(Tip|Note|Warning|Important|Caution)\s+([A-Z])', r'\n\n**\1:** \2', markdown)\<close>.
  \<open>keyword_at kws s\<close> is the first alternative that continues to a whole match at the
  start of \<open>s\<close>, with what follows the match.
\<close>

definition admonition_keywords :: "string list" where
  "admonition_keywords = [''Tip'', ''Note'', ''Warning'', ''Important'', ''Caution'']"

definition admonition_at :: "string \<Rightarrow> string \<Rightarrow> (char \<times> string) option" where
  "admonition_at kw s =
     (if startswith s kw then
        (let r = drop (length kw) s
         in (case dropWhile isspace r of
               [] \<Rightarrow> None
             | c # cs \<Rightarrow> if takeWhile isspace r \<noteq> [] \<and> is_upper_AZ c then Some (c, cs) else None))
      else None)"

function add_admonition_breaks :: "char option \<Rightarrow> string \<Rightarrow> string" where
  "add_admonition_breaks prev [] = []"
| "add_admonition_breaks prev (c # cs) =
     (case (if prev = Some NL then None
            else find (\<lambda>kw. admonition_at kw (c # cs) \<noteq> None) admonition_keywords) of
        None \<Rightarrow> c # add_admonition_breaks (Some c) cs
      | Some kw \<Rightarrow>
          (case admonition_at kw (c # cs) of
             None \<Rightarrow> c # add_admonition_breaks (Some c) cs
           | Some (u, rest) \<Rightarrow>
               [NL, NL] @ ''**'' @ kw @ '':** '' @ [u] @ add_admonition_breaks (Some u) rest))"
  by pat_completeness auto

lemma admonition_at_shorter: "admonition_at kw s = Some (u, rest) \<Longrightarrow> length rest < length s"
proof -
  assume a: "admonition_at kw s = Some (u, rest)"
  then have "dropWhile isspace (drop (length kw) s) = u # rest"
    by (auto simp: admonition_at_def Let_def split: if_splits list.splits)
  then have "length (u # rest) \<le> length (drop (length kw) s)"
    by (metis length_dropWhile_le)
  then show ?thesis by simp
qed

termination add_admonition_breaks
  by (relation "measure (\<lambda>(prev, s). length s)") (auto dest: admonition_at_shorter)

text \<open>
  \<open>re.sub(r'(?<!\n)(Using|Creating|Configuring|Setting up|Installing|Troubleshooting|Managing|Building|Deploying)\s+([a-z][^.]*?)(?=\s[A-Z])',
  r'\n\n## \1 \2', markdown)\<close>. \<open>lazy_phrase\<close> is \<open>[^.]*?(?=\s[A-Z])\<close>: the shortest run of
  characters other than a period after which a whitespace character and a capital follow.
\<close>

definition section_starters :: "string list" where
  "section_starters = [''Using'', ''Creating'', ''Configuring'', ''Setting up'', ''Installing'',
     ''Troubleshooting'', ''Managing'', ''Building'', ''Deploying'']"

fun capital_ahead :: "string \<Rightarrow> bool" where
  "capital_ahead (a # b # cs) = (isspace a \<and> is_upper_AZ b)"
| "capital_ahead s = False"

fun lazy_phrase :: "string \<Rightarrow> (string \<times> string) option" where
  "lazy_phrase [] = None"
| "lazy_phrase (c # cs) =
     (if capital_ahead (c # cs) then Some ([], c # cs)
      else if c = CHR ''.'' then None
      else (case lazy_phrase cs of None \<Rightarrow> None | Some (g, r) \<Rightarrow> Some (c # g, r)))"

definition section_at :: "string \<Rightarrow> string \<Rightarrow> (string \<times> string) option" where
  "section_at kw s =
     (if startswith s kw then
        (let r = drop (length kw) s
         in (case dropWhile isspace r of
               [] \<Rightarrow> None
             | c # cs \<Rightarrow>
                 if takeWhile isspace r \<noteq> [] \<and> is_lower_az c
                 then (case lazy_phrase cs of None \<Rightarrow> None | Some (g, rest) \<Rightarrow> Some (c # g, rest))
                 else None))
      else None)"

function add_section_breaks :: "char option \<Rightarrow> string \<Rightarrow> string" where
  "add_section_breaks prev [] = []"
| "add_section_breaks prev (c # cs) =
     (case (if prev = Some NL then None
            else find (\<lambda>kw. section_at kw (c # cs) \<noteq> None) section_starters) of
        None \<Rightarrow> c # add_section_breaks (Some c) cs
      | Some kw \<Rightarrow>
          (case section_at kw (c # cs) of
             None \<Rightarrow> c # add_section_breaks (Some c) cs
           | Some (g, rest) \<Rightarrow>
               [NL, NL] @ ''## '' @ kw @ '' '' @ g @ add_section_breaks (Some (last g)) rest))"
  by pat_completeness auto

lemma lazy_phrase_shorter: "lazy_phrase s = Some (g, r) \<Longrightarrow> length r \<le> length s"
  by (induction s arbitrary: g r) (auto split: if_splits option.splits)

lemma section_at_shorter: "section_at kw s = Some (g, rest) \<Longrightarrow> length rest < length s"
proof -
  assume a: "section_at kw s = Some (g, rest)"
  then obtain c cs g' where d: "dropWhile isspace (drop (length kw) s) = c # cs"
    and l: "lazy_phrase cs = Some (g', rest)"
    by (auto simp: section_at_def Let_def split: if_splits list.splits option.splits)
  from d have "length (c # cs) \<le> length (drop (length kw) s)"
    by (metis length_dropWhile_le)
  with lazy_phrase_shorter [OF l] show ?thesis by simp
qed

termination add_section_breaks
  by (relation "measure (\<lambda>(prev, s). length s)") (auto dest: section_at_shorter)

text \<open>
  The loop over \<open>lines_for_table_check\<close> that ends the repair only executes \<open>pass\<close>.
\<close>

definition repair_run_on :: "string \<Rightarrow> string" where
  "repair_run_on markdown =
     add_section_breaks None (add_admonition_breaks None (add_sentence_breaks None markdown))"

definition unwrap :: "string \<Rightarrow> string" where
  "unwrap markdown =
     (let md1 = (if contains [BSL, CHR ''n''] markdown
                    \<and> count_char NL markdown < count_sub [BSL, CHR ''n''] markdown
                 then str_replace [BSL, CHR ''n''] [NL] markdown else markdown)
      in if count_char NL md1 < 10 \<and> 500 < length md1 then repair_run_on md1 else md1)"


subsection \<open>Line predicates\<close>

text \<open>
  The patterns of the source are raw strings in which every backslash is doubled, so
  \<open>r'^#{2,6}\\s+\\w'\<close> is: two to six \<open>#\<close>, a backslash, one or more \<open>s\<close>, a
  backslash, a \<open>w\<close>; and \<open>r'^\\d+\\.\\s'\<close> is: a backslash, one or more \<open>d\<close>, a
  backslash, any character, a backslash, an \<open>s\<close>.
\<close>

definition section_heading_re :: "rx_item list" where
  "section_heading_re =
     [Bol, Rep (Lit (CHR ''#'')) 2 (Some 6), One (Lit BSL), Rep (Lit (CHR ''s'')) 1 None,
      One (Lit BSL), One (Lit (CHR ''w''))]"

definition numbered_item_re :: "rx_item list" where
  "numbered_item_re =
     [Bol, One (Lit BSL), Rep (Lit (CHR ''d'')) 1 None, One (Lit BSL), One Dot,
      One (Lit BSL), One (Lit (CHR ''s''))]"

text \<open>
  \<open>re.sub(r'^#{2,6}\\s+', '', line)\<close>: the prefix the pattern matches, if any, is
  removed. After the \<open>#\<close> characters a backslash must follow, so the pattern matches
  only when the line begins with exactly two to six of them.
\<close>

definition strip_heading_prefix :: "string \<Rightarrow> string" where
  "strip_heading_prefix line =
     (let n = length (takeWhile (\<lambda>c. c = CHR ''#'') line)
      in if 2 \<le> n \<and> n \<le> 6 \<and> startswith (drop n line) [BSL, CHR ''s'']
         then dropWhile (\<lambda>c. c = CHR ''s'') (drop (Suc n) line)
         else line)"

definition is_main_heading :: "string \<Rightarrow> bool" where
  "is_main_heading line = (startswith line ''# '' \<and> 3 < length (strip line))"

definition is_section_heading :: "string \<Rightarrow> bool" where
  "is_section_heading line = re_match_items section_heading_re line"

definition is_substantial_paragraph :: "cleaner \<Rightarrow> string \<Rightarrow> bool" where
  "is_substantial_paragraph c line =
     (let stripped = strip line
      in if length stripped < 20 then False
         else if length (py_words stripped) < 4 then False
         else if list_ex (\<lambda>nav. contains nav (lower stripped)) (take 5 (nav_indicators c))
              then False
         else True)"

definition is_content_list :: "cleaner \<Rightarrow> string \<Rightarrow> bool" where
  "is_content_list c line =
     (let stripped = strip line
      in if \<not> (startswith stripped ''- '' \<or> startswith stripped ''* ''
               \<or> re_match_items numbered_item_re stripped) then False
         else if length stripped < 10 then False
         else if list_ex (\<lambda>nav. contains nav (lower stripped)) (nav_indicators c) then False
         else True)"

definition is_code_content :: "string \<Rightarrow> bool" where
  "is_code_content line =
     (let stripped = strip line
      in startswith stripped ''```'' \<or> startswith stripped ''`''
         \<or> contains ''    '' (take 4 line))"

text \<open>
  \<open>len(title_words & heading_words) / max(len(title_words), 1) >= 0.5\<close> compares a
  quotient of two small integers with one half, which is \<open>2 * a \<ge> b\<close>.
\<close>

definition title_overlap :: "string \<Rightarrow> string \<Rightarrow> bool" where
  "title_overlap title heading_text =
     (let title_words = remdups (py_words (lower title));
          heading_words = py_words heading_text;
          common = filter (\<lambda>w. w \<in> set heading_words) title_words
      in max (length title_words) 1 \<le> 2 * length common)"

text \<open>The arguments \<open>all_lines\<close> and \<open>index\<close> of the source are never read.\<close>

definition is_main_content_start :: "cleaner \<Rightarrow> string \<Rightarrow> string \<Rightarrow> bool" where
  "is_main_content_start c line title =
     (if startswith line ''# ''
         \<and> (let heading_text = lower (strip (drop 2 line))
            in \<not> list_ex (\<lambda>nav. contains nav heading_text)
                   [''home'', ''menu'', ''navigation'', ''page'']
               \<and> ((title \<noteq> [] \<and> title_overlap title heading_text)
                  \<or> 10 < length heading_text))
      then True
      else if re_match_items section_heading_re line \<and> 10 < length (strip line)
         \<and> (let heading_text = lower (strip (strip_heading_prefix line))
            in \<not> list_ex (\<lambda>nav. contains nav heading_text) (nav_indicators c))
      then True
      else if is_substantial_paragraph c line then True
      else if is_content_list c line then True
      else if startswith line ''```'' \<or> startswith (strip line) ''`'' then True
      else False)"

definition nav_section_starts :: "string list" where
  "nav_section_starts = [''search'', ''navigation'', ''menu'', ''breadcrumb'', ''skip to'',
     ''table of contents'', ''getting started'', ''##### getting started'',
     ''##### build with'', ''##### deployment'', ''##### administration'',
     ''##### configuration'', ''##### reference'']"

definition is_navigation_section :: "string \<Rightarrow> bool" where
  "is_navigation_section line =
     list_ex (\<lambda>nav_start. contains nav_start (lower line)) nav_section_starts"

definition is_likely_navigation :: "string \<Rightarrow> bool" where
  "is_likely_navigation line =
     (if 3 < count_char (CHR ''['') line \<and> 3 < count_sub '']('' line then True
      else if list_ex (\<lambda>term. contains term (lower line))
                [''overview'', ''quickstart'', ''getting started'', ''reference'', ''home'']
              \<and> length (strip line) < 100 then True
      else False)"

definition is_footer_line :: "cleaner \<Rightarrow> string \<Rightarrow> bool" where
  "is_footer_line c line = list_ex (\<lambda>footer. contains footer (lower line)) (footer_indicators c)"

definition should_skip_line :: "cleaner \<Rightarrow> string \<Rightarrow> bool" where
  "should_skip_line c line = list_ex (\<lambda>pattern. contains pattern (lower line)) (skip_patterns c)"

subsection \<open>Formatting of a retained line\<close>

text \<open>
  The two signs that the source puts before \<open>Warning:\<close> and \<open>Important:\<close> lie outside
  the code points \<open>0..255\<close>; they are written here as their UTF-8 bytes. A line that
  carries the first is therefore four characters longer here than in the source (six
  bytes for two code points), and one that carries the second is two characters longer
  (three bytes for one code point).
\<close>

definition warning_sign :: string where
  "warning_sign = [CHR 0xE2, CHR 0x9A, CHR 0xA0, CHR 0xEF, CHR 0xB8, CHR 0x8F]"

definition important_sign :: string where
  "important_sign = [CHR 0xE2, CHR 0x9D, CHR 0x97]"

definition enhance_admonitions :: "string \<Rightarrow> string" where
  "enhance_admonitions line =
     (let stripped = strip line
      in if startswith stripped ''Note:'' \<or> startswith stripped ''NOTE:''
         then str_replace ''NOTE:'' ''> **Note:**'' (str_replace ''Note:'' ''> **Note:**'' line)
         else if startswith stripped ''Tip:'' \<or> startswith stripped ''TIP:''
         then str_replace ''TIP:'' ''> **Tip:**'' (str_replace ''Tip:'' ''> **Tip:**'' line)
         else if startswith stripped ''Warning:'' \<or> startswith stripped ''WARNING:''
         then str_replace ''WARNING:'' (''> **'' @ warning_sign @ '' Warning:**'')
                (str_replace ''Warning:'' (''> **'' @ warning_sign @ '' Warning:**'') line)
         else if startswith stripped ''Important:'' \<or> startswith stripped ''IMPORTANT:''
         then str_replace ''IMPORTANT:'' (''> **'' @ important_sign @ '' Important:**'')
                (str_replace ''Important:'' (''> **'' @ important_sign @ '' Important:**'') line)
         else line)"

text \<open>
  \<open>_enhance_code_blocks\<close> returns its line unchanged; the attribute \<open>_prev_line\<close> it
  writes is read only on a branch that executes \<open>pass\<close>.
\<close>

definition enhance_code_blocks :: "string \<Rightarrow> string" where
  "enhance_code_blocks line = line"

text \<open>
  \<open>re.sub(r'(\\?utm_[^\\s]+)', '', line)\<close> and \<open>re.sub(r'(\\?ref=[^\\s]+)', '', line)\<close>:
  an optional backslash, the key, and one or more characters other than a backslash
  and \<open>s\<close>; every such match is deleted.
\<close>

function remove_tracking :: "string \<Rightarrow> string \<Rightarrow> string" where
  "remove_tracking key [] = []"
| "remove_tracking key (c # cs) =
     (let body = (if c = BSL then cs else c # cs);
          after = drop (length key) body
      in if startswith body key \<and> after \<noteq> [] \<and> hd after \<notin> {BSL, CHR ''s''}
         then remove_tracking key (dropWhile (\<lambda>x. x \<notin> {BSL, CHR ''s''}) after)
         else c # remove_tracking key cs)"
  by pat_completeness auto
termination
proof (relation "measure (\<lambda>(key, s). length s)", goal_cases)
  case 1
  show ?case by simp
next
  case (2 key c cs body after)
  from 2 have ne: "after \<noteq> []" and h: "hd after \<notin> {BSL, CHR ''s''}"
    by simp_all
  then obtain a as where after: "after = a # as" and a: "a \<notin> {BSL, CHR ''s''}"
    by (cases after) simp_all
  have "length (dropWhile (\<lambda>x. x \<notin> {BSL, CHR ''s''}) after) \<le> length as"
    using a by (simp add: after length_dropWhile_le)
  moreover have "length after \<le> length (c # cs)"
    using 2 by (auto split: if_splits)
  ultimately show ?case
    by (simp add: after)
next
  case 3
  then show ?case by simp
qed

definition enhance_links :: "string \<Rightarrow> string" where
  "enhance_links line = remove_tracking ''ref='' (remove_tracking ''utm_'' line)"

definition enhance_markdown_formatting :: "string \<Rightarrow> string" where
  "enhance_markdown_formatting line =
     (if strip line = [] then line
      else enhance_links (enhance_code_blocks (enhance_admonitions line)))"

subsection \<open>Whitespace normalisation\<close>

text \<open>\<open>re.sub(r'\n{3,}', '\n\n', content)\<close>.\<close>

function collapse_newlines :: "string \<Rightarrow> string" where
  "collapse_newlines [] = []"
| "collapse_newlines (c # cs) =
     (if c = NL then
        (let run = takeWhile (\<lambda>x. x = NL) (c # cs);
             rest = dropWhile (\<lambda>x. x = NL) (c # cs)
         in (if 3 \<le> length run then [NL, NL] else run) @ collapse_newlines rest)
      else c # collapse_newlines cs)"
  by pat_completeness auto
termination
  by (relation "measure length") (auto simp: less_Suc_eq_le length_dropWhile_le)

definition clean_whitespace :: "string \<Rightarrow> string" where
  "clean_whitespace content =
     (let content1 = collapse_newlines content;
          lines1 = map rstrip (split_on NL content1);
          lines2 = dropWhile (\<lambda>l. strip l = []) lines1;
          lines3 = rev (dropWhile (\<lambda>l. strip l = []) (rev lines2))
      in join [NL] lines3)"

subsection \<open>The classification loop\<close>

record loop_state =
  cleaned_lines :: "string list"
  content_started :: bool
  in_footer :: bool
  skip_navigation_section :: bool

definition initial_state :: loop_state where
  "initial_state = \<lparr> cleaned_lines = [], content_started = False, in_footer = False,
     skip_navigation_section = True \<rparr>"

text \<open>
  One pass through the loop body: \<open>Next\<close> when the body ends or executes \<open>continue\<close>,
  \<open>Break\<close> when it executes \<open>break\<close>.
\<close>

datatype flow = Next loop_state | Break loop_state

definition process_line :: "cleaner \<Rightarrow> string \<Rightarrow> loop_state \<Rightarrow> string \<Rightarrow> flow" where
  "process_line c title st line =
     (let stripped = strip line
      in if \<not> content_started st \<and> stripped = [] then Next st
         else if \<not> in_footer st \<and> is_footer_line c stripped
              then Break (st\<lparr>in_footer := True\<rparr>)
         else if should_skip_line c stripped then Next st
         else if skip_navigation_section st \<and> is_navigation_section stripped then Next st
         else if \<not> content_started st \<and> \<not> is_main_content_start c stripped title then Next st
         else (let st1 = (if \<not> content_started st
                          then st\<lparr>content_started := True, skip_navigation_section := False\<rparr>
                          else st)
               in if content_started st1 \<and> is_likely_navigation stripped then Next st1
                  else Next (st1\<lparr>cleaned_lines :=
                               cleaned_lines st1 @ [enhance_markdown_formatting line]\<rparr>)))"

fun run_loop :: "cleaner \<Rightarrow> string \<Rightarrow> loop_state \<Rightarrow> string list \<Rightarrow> loop_state" where
  "run_loop c title st [] = st"
| "run_loop c title st (line # lines) =
     (case process_line c title st line of
        Break st' \<Rightarrow> st'
      | Next st' \<Rightarrow> run_loop c title st' lines)"

definition clean_markdown_content :: "cleaner \<Rightarrow> string \<Rightarrow> string \<Rightarrow> string" where
  "clean_markdown_content c markdown title =
     (if markdown = [] then markdown
      else (let lines = split_on NL (unwrap markdown);
                st = run_loop c title initial_state lines
            in clean_whitespace (join [NL] (cleaned_lines st))))"



section \<open>content\_filters.py: ConfigurableContentCleaner\<close>

text \<open>
  The state that \<open>super().__init__()\<close> sets up is the field \<open>base\<close>. The selector
  extractor rests on HTML parsing libraries; its three extraction methods are taken as
  they are, as functions from their arguments to the extracted text.
\<close>

record configurable_cleaner =
  base :: cleaner
  content_css_selectors :: "string list"
  content_xpath :: "string list"
  exclude_css_selectors :: "string list"
  exclude_xpath :: "string list"
  extraction_method :: string
  min_content_length :: int
  preserve_elements :: "string list"
  cleaning_profile :: string

record cleaner_args =
  custom_nav_patterns :: "string list option"
  custom_footer_patterns :: "string list option"
  custom_skip_patterns :: "string list option"
  arg_content_css_selectors :: "string list option"
  arg_content_xpath :: "string list option"
  arg_exclude_css_selectors :: "string list option"
  arg_exclude_xpath :: "string list option"
  arg_extraction_method :: string
  arg_min_content_length :: int
  arg_preserve_elements :: "string list option"
  arg_cleaning_profile :: string

definition default_cleaner_args :: cleaner_args where
  "default_cleaner_args = \<lparr>
     custom_nav_patterns = None, custom_footer_patterns = None, custom_skip_patterns = None,
     arg_content_css_selectors = None, arg_content_xpath = None,
     arg_exclude_css_selectors = None, arg_exclude_xpath = None,
     arg_extraction_method = ''auto'', arg_min_content_length = 100,
     arg_preserve_elements = None, arg_cleaning_profile = ''moderate'' \<rparr>"

text \<open>\<open>xs or []\<close> for an optional list.\<close>

fun or_empty :: "'a list option \<Rightarrow> 'a list" where
  "or_empty None = []"
| "or_empty (Some xs) = xs"

definition apply_cleaning_profile :: "configurable_cleaner \<Rightarrow> string \<Rightarrow> configurable_cleaner" where
  "apply_cleaning_profile self profile =
     (if profile = ''strict'' then
        self\<lparr>min_content_length := 200,
             base := (base self)\<lparr>
               nav_indicators := nav_indicators (base self)
                 @ [''menu'', ''nav'', ''sidebar'', ''header'', ''footer''],
               skip_patterns := skip_patterns (base self)
                 @ [''advertisement'', ''sponsored'', ''promotion'']\<rparr>\<rparr>
      else if profile = ''minimal'' then self\<lparr>min_content_length := 50\<rparr>
      else self)"

definition ConfigurableContentCleaner :: "cleaner_args \<Rightarrow> configurable_cleaner" where
  "ConfigurableContentCleaner args =
     apply_cleaning_profile
       \<lparr> base = ContentCleaner\<lparr>
            nav_indicators := nav_indicators ContentCleaner @ or_empty (custom_nav_patterns args),
            footer_indicators :=
              footer_indicators ContentCleaner @ or_empty (custom_footer_patterns args),
            skip_patterns := skip_patterns ContentCleaner @ or_empty (custom_skip_patterns args)\<rparr>,
          content_css_selectors = or_empty (arg_content_css_selectors args),
          content_xpath = or_empty (arg_content_xpath args),
          exclude_css_selectors = or_empty (arg_exclude_css_selectors args),
          exclude_xpath = or_empty (arg_exclude_xpath args),
          extraction_method = arg_extraction_method args,
          min_content_length = arg_min_content_length args,
          preserve_elements =
            (if or_empty (arg_preserve_elements args) = [] then [''code'', ''pre'', ''blockquote'']
             else or_empty (arg_preserve_elements args)),
          cleaning_profile = arg_cleaning_profile args \<rparr>
       (arg_cleaning_profile args)"

record selector_extractor =
  extract_by_css :: "string \<Rightarrow> string list \<Rightarrow> string list \<Rightarrow> string"
  extract_by_xpath :: "string \<Rightarrow> string list \<Rightarrow> string list \<Rightarrow> string"
  extract_combined ::
    "string \<Rightarrow> string list \<Rightarrow> string list \<Rightarrow> string list \<Rightarrow> string list \<Rightarrow> string"

definition extract_with_selectors ::
  "selector_extractor \<Rightarrow> configurable_cleaner \<Rightarrow> string \<Rightarrow> string option" where
  "extract_with_selectors ext self html =
     (if content_css_selectors self = [] \<and> content_xpath self = [] then None
      else if extraction_method self = ''css''
        then Some (extract_by_css ext html (content_css_selectors self) (exclude_css_selectors self))
      else if extraction_method self = ''xpath''
        then Some (extract_by_xpath ext html (content_xpath self) (exclude_xpath self))
      else Some (extract_combined ext html (content_css_selectors self) (content_xpath self)
                   (exclude_css_selectors self) (exclude_xpath self)))"

definition clean_with_selectors ::
  "selector_extractor \<Rightarrow> configurable_cleaner \<Rightarrow> string \<Rightarrow> string \<Rightarrow> string \<Rightarrow> string" where
  "clean_with_selectors ext self html markdown title =
     (case extract_with_selectors ext self html of
        None \<Rightarrow> clean_markdown_content (base self) markdown title
      | Some selector_content \<Rightarrow>
          if selector_content \<noteq> [] \<and> min_content_length self \<le> int (length selector_content)
          then clean_markdown_content (base self) selector_content title
          else clean_markdown_content (base self) markdown title)"

section \<open>crawler.py: URLPatternHandler\<close>

definition convert_wildcard_to_regex :: "string \<Rightarrow> string" where
  "convert_wildcard_to_regex pattern =
     (let p1 = str_replace ''.'' [BSL, CHR ''.''] pattern;
          p2 = str_replace ''+'' [BSL, CHR ''+''] p1;
          p3 = str_replace ''^'' [BSL, CHR ''^''] p2;
          p4 = str_replace ''$'' [BSL, CHR ''$''] p3;
          p5 = str_replace ''('' [BSL, CHR ''(''] p4;
          p6 = str_replace '')'' [BSL, CHR '')''] p5;
          p7 = str_replace ''['' [BSL, CHR ''[''] p6;
          p8 = str_replace '']'' [BSL, CHR '']''] p7;
          p9 = str_replace ''{'' [BSL, CHR ''{''] p8;
          p10 = str_replace ''}'' [BSL, CHR ''}''] p9;
          p11 = str_replace ''**'' ''<<<DOUBLESTAR>>>'' p10;
          p12 = str_replace ''*'' ''[^/]*'' p11;
          p13 = str_replace ''<<<DOUBLESTAR>>>'' ''.*'' p12;
          p14 = str_replace ''?'' ''.'' p13
      in ''^'' @ p14 @ ''$'')"

text \<open>
  \<open>re.match\<close> belongs to the Python library. \<open>match_url_pattern\<close> takes it as a
  function from the pattern and the text to \<open>Inl ReError\<close>, when the pattern does not
  compile (\<open>re.error\<close> is raised), or to \<open>Inr\<close> of whether a match was found.
\<close>

datatype re_error = ReError

type_synonym matcher = "string \<Rightarrow> string \<Rightarrow> re_error + bool"

text \<open>
  The loop \<open>for pattern in patterns: if re.match(regex, url): return ...\<close>: whether it
  reaches its \<open>return\<close>.
\<close>

fun any_pattern_matches :: "matcher \<Rightarrow> string \<Rightarrow> string list \<Rightarrow> re_error + bool" where
  "any_pattern_matches re_match_fn url [] = Inr False"
| "any_pattern_matches re_match_fn url (pattern # patterns) =
     (case re_match_fn (convert_wildcard_to_regex pattern) url of
        Inl e \<Rightarrow> Inl e
      | Inr found \<Rightarrow>
          if found then Inr True else any_pattern_matches re_match_fn url patterns)"

definition match_url_pattern ::
  "matcher \<Rightarrow> string \<Rightarrow> string list option \<Rightarrow> string list option \<Rightarrow> re_error + bool" where
  "match_url_pattern re_match_fn url patterns exclude_patterns =
     (case any_pattern_matches re_match_fn url (or_empty exclude_patterns) of
        Inl e \<Rightarrow> Inl e
      | Inr excluded \<Rightarrow>
          if excluded then Inr False
          else if or_empty patterns = [] then Inr True
          else any_pattern_matches re_match_fn url (or_empty patterns))"

subsection \<open>The patterns that the conversion produces\<close>

text \<open>
  A model of \<open>re.match\<close> on the patterns built from \<open>^\<close>, \<open>$\<close>, \<open>.\<close>, \<open>[^/]\<close>,
  a backslash before a punctuation character, ordinary characters, and \<open>*\<close> after one
  of these: what \<open>convert_wildcard_to_regex\<close> returns for a wildcard pattern without
  backslash and \<open>|\<close>. \<open>parse_regex\<close> is \<open>None\<close> on every other pattern.
\<close>

definition is_alnum :: "char \<Rightarrow> bool" where
  "is_alnum c = (is_upper_AZ c \<or> is_lower_az c \<or> is_digit c)"

definition is_ascii :: "char \<Rightarrow> bool" where
  "is_ascii c = ((of_char c :: nat) < 128)"

fun parse_atom :: "string \<Rightarrow> (rx_atom \<times> string) option" where
  "parse_atom [] = None"
| "parse_atom (c # cs) =
     (if c = BSL then
        (case cs of
           [] \<Rightarrow> None
         | d # ds \<Rightarrow> if is_ascii d \<and> \<not> is_alnum d then Some (Lit d, ds) else None)
      else if c = CHR ''.'' then Some (Dot, cs)
      else if c = CHR ''['' then
        (if startswith cs ''^/]'' then Some (NoneOf ''/'', drop 3 cs) else None)
      else if c \<in> set ''*+?{}()|]^$'' then None
      else Some (Lit c, cs))"

lemma parse_atom_shorter: "parse_atom s = Some (a, r) \<Longrightarrow> length r < length s"
  by (cases s) (auto split: if_splits list.splits)

function parse_regex :: "string \<Rightarrow> rx_item list option" where
  "parse_regex [] = Some []"
| "parse_regex (c # cs) =
     (if c = CHR ''^'' then map_option (Cons Bol) (parse_regex cs)
      else if c = CHR ''$'' then map_option (Cons Eol) (parse_regex cs)
      else (case parse_atom (c # cs) of
              None \<Rightarrow> None
            | Some (a, r) \<Rightarrow>
                (case r of
                   [] \<Rightarrow> Some [One a]
                 | q # r' \<Rightarrow>
                     if q = CHR ''*'' then
                       (if r' \<noteq> [] \<and> hd r' \<in> set ''*+?{'' then None
                        else map_option (Cons (Rep a 0 None)) (parse_regex r'))
                     else if q \<in> set ''+?{'' then None
                     else map_option (Cons (One a)) (parse_regex r))))"
  by pat_completeness auto
termination
  by (relation "measure length") (auto dest: parse_atom_shorter simp del: parse_atom.simps)

definition re_match :: "string \<Rightarrow> string \<Rightarrow> bool option" where
  "re_match pattern s = map_option (\<lambda>items. rx_match items True s) (parse_regex pattern)"

section \<open>crawler.py: URLDiscovery\<close>

subsection \<open>urllib.parse\<close>

text \<open>
  \<open>urlsplit\<close> and \<open>urlparse\<close> as in the library's source. Two parts of it are not
  computed here. The check of a bracketed host (an IPv6 literal) is the field
  \<open>bracketed_host_ok\<close> of the library record. The check of a non-ASCII host under
  NFKC normalisation never fails on code points below 256, since none of them
  normalises to a text with one of the characters \<open>/?#@:\<close>. \<open>urljoin\<close> is a field of
  the record as well.
\<close>

datatype url_error = ValueError

record urllib =
  urljoin :: "string \<Rightarrow> string \<Rightarrow> url_error + string"
  bracketed_host_ok :: "string \<Rightarrow> bool"

record parse_result =
  scheme :: string
  netloc :: string
  path :: string
  params :: string
  query :: string
  fragment :: string

definition scheme_chars :: string where
  "scheme_chars = ''abcdefghijklmnopqrstuvwxyzABCDEFGHIJKLMNOPQRSTUVWXYZ0123456789+-.''"

definition uses_params :: "string list" where
  "uses_params = [[], ''ftp'', ''hdl'', ''prospero'', ''http'', ''imap'', ''https'', ''shttp'',
     ''rtsp'', ''rtsps'', ''rtspu'', ''sip'', ''sips'', ''mms'', ''sftp'', ''tel'']"

definition is_c0_control_or_space :: "char \<Rightarrow> bool" where
  "is_c0_control_or_space c = ((of_char c :: nat) \<le> 32)"

text \<open>\<open>s.split(c, 1)\<close> when \<open>c\<close> occurs in \<open>s\<close>.\<close>

definition split_first :: "char \<Rightarrow> string \<Rightarrow> string \<times> string" where
  "split_first c s = (takeWhile (\<lambda>x. x \<noteq> c) s, drop 1 (dropWhile (\<lambda>x. x \<noteq> c) s))"

definition split_scheme :: "string \<Rightarrow> string \<times> string" where
  "split_scheme url =
     (let pre = takeWhile (\<lambda>x. x \<noteq> CHR '':'') url
      in if CHR '':'' \<in> set url \<and> pre \<noteq> []
            \<and> is_ascii (hd url) \<and> (is_upper_AZ (hd url) \<or> is_lower_az (hd url))
            \<and> list_all (\<lambda>c. c \<in> set scheme_chars) pre
         then (lower pre, drop (Suc (length pre)) url)
         else ([], url))"

definition splitnetloc :: "string \<Rightarrow> string \<times> string" where
  "splitnetloc url =
     (takeWhile (\<lambda>c. c \<notin> set ''/?#'') (drop 2 url),
      dropWhile (\<lambda>c. c \<notin> set ''/?#'') (drop 2 url))"

definition urlsplit :: "urllib \<Rightarrow> string \<Rightarrow> url_error + parse_result" where
  "urlsplit lib url0 =
     (let url1 = dropWhile is_c0_control_or_space url0;
          url2 = filter (\<lambda>c. c \<notin> set [CHR 0x09, CHR 0x0D, CHR 0x0A]) url1;
          (scheme_part, url3) = split_scheme url2;
          (netloc_part, url4) = (if take 2 url3 = ''//'' then splitnetloc url3 else ([], url3));
          (url5, fragment_part) =
             (if CHR ''#'' \<in> set url4 then split_first (CHR ''#'') url4 else (url4, []));
          (url6, query_part) =
             (if CHR ''?'' \<in> set url5 then split_first (CHR ''?'') url5 else (url5, []))
      in if (CHR ''['' \<in> set netloc_part \<and> CHR '']'' \<notin> set netloc_part)
            \<or> (CHR '']'' \<in> set netloc_part \<and> CHR ''['' \<notin> set netloc_part)
         then Inl ValueError
         else if CHR ''['' \<in> set netloc_part \<and> CHR '']'' \<in> set netloc_part
                 \<and> \<not> bracketed_host_ok lib netloc_part
         then Inl ValueError
         else Inr \<lparr> scheme = scheme_part, netloc = netloc_part, path = url6, params = [],
                    query = query_part, fragment = fragment_part \<rparr>)"

text \<open>
  \<open>_splitparams\<close>: the parameters are what follows the first \<open>;\<close> of the last path
  segment.
\<close>

definition splitparams :: "string \<Rightarrow> string \<times> string" where
  "splitparams url =
     (if CHR ''/'' \<in> set url then
        (let last_segment = rev (takeWhile (\<lambda>c. c \<noteq> CHR ''/'') (rev url));
             before = take (length url - length last_segment) url
         in if CHR '';'' \<in> set last_segment
            then (before @ takeWhile (\<lambda>c. c \<noteq> CHR '';'') last_segment,
                  drop 1 (dropWhile (\<lambda>c. c \<noteq> CHR '';'') last_segment))
            else (url, []))
      else split_first (CHR '';'') url)"

definition urlparse :: "urllib \<Rightarrow> string \<Rightarrow> url_error + parse_result" where
  "urlparse lib url =
     (case urlsplit lib url of
        Inl e \<Rightarrow> Inl e
      | Inr r \<Rightarrow>
          if scheme r \<in> set uses_params \<and> CHR '';'' \<in> set (path r)
          then Inr (r\<lparr>path := fst (splitparams (path r)), params := snd (splitparams (path r))\<rparr>)
          else Inr r)"

subsection \<open>URLDiscovery\<close>

definition extract_domain :: "urllib \<Rightarrow> string \<Rightarrow> url_error + string" where
  "extract_domain lib url =
     (case urlparse lib url of
        Inl e \<Rightarrow> Inl e
      | Inr parsed \<Rightarrow> Inr (scheme parsed @ ''://'' @ netloc parsed))"

definition is_same_domain :: "urllib \<Rightarrow> string \<Rightarrow> string \<Rightarrow> url_error + bool" where
  "is_same_domain lib url1 url2 =
     (case extract_domain lib url1 of
        Inl e \<Rightarrow> Inl e
      | Inr d1 \<Rightarrow> (case extract_domain lib url2 of Inl e \<Rightarrow> Inl e | Inr d2 \<Rightarrow> Inr (d1 = d2)))"

definition normalize_url :: "urllib \<Rightarrow> string \<Rightarrow> string option \<Rightarrow> url_error + string" where
  "normalize_url lib url base_url =
     (case (if or_empty base_url \<noteq> [] then urljoin lib (or_empty base_url) url else Inr url) of
        Inl e \<Rightarrow> Inl e
      | Inr url1 \<Rightarrow>
          (case urlparse lib url1 of
             Inl e \<Rightarrow> Inl e
           | Inr parsed \<Rightarrow>
               (let url2 = scheme parsed @ ''://'' @ netloc parsed @ path parsed;
                    url3 = (if query parsed \<noteq> [] then url2 @ ''?'' @ query parsed else url2)
                in Inr (if endswith url3 ''/'' \<and> 1 < length (path parsed)
                        then butlast url3 else url3))))"

text \<open>
  \<open>re.match\<close> as a function for \<open>match_url_pattern\<close>, from the model above. A
  pattern outside the model is given the result \<open>Inl ReError\<close>. That is Python's
  result where the pattern has a backslash before a letter that begins no escape
  sequence (such as \<open>\q\<close>) or ends in a backslash; on the other patterns outside the
  model (with \<open>|\<close>, \<open>\d\<close>, a group or a character class) Python compiles the
  pattern, and this function is not to be used there.
\<close>

definition fragment_matcher :: matcher where
  "fragment_matcher pattern s =
     (case re_match pattern s of None \<Rightarrow> Inl ReError | Some found \<Rightarrow> Inr found)"

subsection \<open>The fetch collaborator\<close>

text \<open>
  What \<open>crawler.arun\<close> gives back: it raises, or it returns a result object.
  \<open>res_links\<close> is \<open>None\<close> when \<open>result.links\<close> is empty or absent, and else the
  \<open>href\<close> entries of its internal and of its external links (the empty string where an
  entry has none). \<open>res_metadata\<close> is \<open>None\<close> when \<open>result.metadata\<close> is empty or
  absent. \<open>res_error_message\<close> is \<open>None\<close> when the result has no attribute
  \<open>error_message\<close>, \<open>Some None\<close> when the attribute is \<open>None\<close>, and else the
  message.
\<close>

record crawl_result =
  res_success :: bool
  res_markdown :: "string option"
  res_html :: "string option"
  res_metadata :: "(string \<times> string) list option"
  res_links :: "(string list \<times> string list) option"
  res_error_message :: "string option option"
  res_cleaned_html :: "string option"

datatype arun_outcome = Arun_raises string | Arun_returns crawl_result

text \<open>The fields of \<open>CrawlConfig\<close> that the discovery loop reads.\<close>

record crawl_config =
  max_depth :: int
  max_pages :: int
  include_external :: bool

subsection \<open>discover\_urls\<close>

text \<open>
  The local variables of \<open>discover_urls\<close>, with \<open>self.url_relationships\<close>. The set
  \<open>discovered\<close> is a list without duplicates. \<open>fetched\<close> is not a variable of the
  source: it records the URLs handed to \<open>crawler.arun\<close>, in order.
\<close>

record discovery_state =
  to_visit :: "string list"
  visited :: "string set"
  depth_map :: "string \<rightharpoonup> int"
  discovered :: "string list"
  url_relationships :: "string \<rightharpoonup> string list"
  fetched :: "string list"

definition initial_discovery :: "string \<Rightarrow> discovery_state" where
  "initial_discovery start_url = \<lparr> to_visit = [start_url], visited = {},
     depth_map = [start_url \<mapsto> 0], discovered = [], url_relationships = Map.empty,
     fetched = [] \<rparr>"

text \<open>
  The loop over the internal links. An exception of \<open>normalize_url\<close> or
  \<open>is_same_domain\<close> leaves the loop for the handler, which only prints: the state is
  the one reached so far.
\<close>

fun follow_links ::
  "urllib \<Rightarrow> crawl_config \<Rightarrow> string \<Rightarrow> string \<Rightarrow> int \<Rightarrow> discovery_state \<Rightarrow> string list
     \<Rightarrow> discovery_state" where
  "follow_links lib cfg start_url current_url current_depth st [] = st"
| "follow_links lib cfg start_url current_url current_depth st (link # rest) =
     (if link = [] then follow_links lib cfg start_url current_url current_depth st rest
      else (case normalize_url lib link (Some current_url) of
              Inl e \<Rightarrow> st
            | Inr normalized \<Rightarrow>
                (case (if \<not> include_external cfg
                       then is_same_domain lib normalized start_url else Inr True) of
                   Inl e \<Rightarrow> st
                 | Inr same \<Rightarrow>
                     if \<not> same
                     then follow_links lib cfg start_url current_url current_depth st rest
                     else if normalized \<notin> visited st \<and> normalized \<notin> set (to_visit st)
                     then follow_links lib cfg start_url current_url current_depth
                            (st\<lparr>to_visit := to_visit st @ [normalized],
                                depth_map := (depth_map st)(normalized \<mapsto> current_depth + 1),
                                url_relationships := (url_relationships st)(current_url \<mapsto>
                                  (case url_relationships st current_url of
                                     None \<Rightarrow> [] | Some children \<Rightarrow> children) @ [normalized])\<rparr>)
                            rest
                     else follow_links lib cfg start_url current_url current_depth st rest)))"

definition recorded_depth :: "discovery_state \<Rightarrow> string \<Rightarrow> int" where
  "recorded_depth st u = (case depth_map st u of None \<Rightarrow> 0 | Some d \<Rightarrow> d)"

text \<open>
  One pass through the body of the \<open>while\<close> loop, for a state whose queue is not
  empty; \<open>outcome\<close> is what \<open>crawler.arun\<close> does if the pass reaches it.
\<close>

definition discover_iteration ::
  "urllib \<Rightarrow> matcher \<Rightarrow> crawl_config \<Rightarrow> string list option \<Rightarrow> string list option \<Rightarrow> string
     \<Rightarrow> discovery_state \<Rightarrow> arun_outcome \<Rightarrow> discovery_state" where
  "discover_iteration lib re_match_fn cfg patterns exclude_patterns start_url st outcome =
     (case to_visit st of
        [] \<Rightarrow> st
      | current_url # rest \<Rightarrow>
          (let st1 = st\<lparr>to_visit := rest\<rparr>
           in if current_url \<in> visited st1 then st1
              else (let current_depth = recorded_depth st1 current_url
                    in if max_depth cfg < current_depth then st1
                       else (let st2 = st1\<lparr>visited := insert current_url (visited st1),
                                            fetched := fetched st1 @ [current_url]\<rparr>
                             in (case outcome of
                                   Arun_raises e \<Rightarrow> st2
                                 | Arun_returns result \<Rightarrow>
                                     if \<not> res_success result then st2
                                     else (case match_url_pattern re_match_fn current_url
                                                  patterns exclude_patterns of
                                             Inl e \<Rightarrow> st2
                                           | Inr admitted \<Rightarrow>
                                               (let st3 = (if admitted
                                                           then st2\<lparr>discovered :=
                                                             List.insert current_url (discovered st2)\<rparr>
                                                           else st2)
                                                in (case res_links result of
                                                      None \<Rightarrow> st3
                                                    | Some (internal, external) \<Rightarrow>
                                                        if current_depth < max_depth cfg
                                                        then follow_links lib cfg start_url
                                                               current_url current_depth st3 internal
                                                        else st3))))))))"

text \<open>
  The \<open>while\<close> loop; the list holds what the collaborator does in each pass, and the
  loop is followed for as many passes as the list is long.
\<close>

fun discover_loop ::
  "urllib \<Rightarrow> matcher \<Rightarrow> crawl_config \<Rightarrow> string list option \<Rightarrow> string list option \<Rightarrow> string
     \<Rightarrow> discovery_state \<Rightarrow> arun_outcome list \<Rightarrow> discovery_state" where
  "discover_loop lib re_match_fn cfg patterns exclude_patterns start_url st [] = st"
| "discover_loop lib re_match_fn cfg patterns exclude_patterns start_url st (outcome # outcomes) =
     (if to_visit st \<noteq> [] \<and> int (length (discovered st)) < max_pages cfg
      then discover_loop lib re_match_fn cfg patterns exclude_patterns start_url
             (discover_iteration lib re_match_fn cfg patterns exclude_patterns start_url st outcome)
             outcomes
      else st)"

definition discover_urls ::
  "urllib \<Rightarrow> matcher \<Rightarrow> crawl_config \<Rightarrow> string \<Rightarrow> string list option \<Rightarrow> string list option
     \<Rightarrow> arun_outcome list \<Rightarrow> string list \<times> discovery_state" where
  "discover_urls lib re_match_fn cfg start_url patterns exclude_patterns outcomes =
     (let st = discover_loop lib re_match_fn cfg patterns exclude_patterns start_url
                 (initial_discovery start_url) outcomes
      in (sort (discovered st), st))"

text \<open>A library for examples: relative links are appended to the base URL.\<close>

definition example_urllib :: urllib where
  "example_urllib = \<lparr> urljoin = (\<lambda>base_url link. Inr (base_url @ link)),
     bracketed_host_ok = (\<lambda>host. True) \<rparr>"

text \<open>Values for examples: a successful fetch with the given internal links.\<close>

definition example_page :: "string list \<Rightarrow> arun_outcome" where
  "example_page hrefs = Arun_returns \<lparr> res_success = True, res_markdown = None,
     res_html = None, res_metadata = None, res_links = Some (hrefs, []),
     res_error_message = None, res_cleaned_html = None \<rparr>"

definition example_config :: crawl_config where
  "example_config = \<lparr>max_depth = 1, max_pages = 50, include_external = False\<rparr>"

definition example_deep_state :: discovery_state where
  "example_deep_state = \<lparr> to_visit = [''http://a.com/deep''], visited = {},
     depth_map = [''http://a.com/deep'' \<mapsto> 2], discovered = [],
     url_relationships = Map.empty, fetched = [] \<rparr>"

text \<open>
  The invariant of the discovery loop: every queued URL has a recorded depth, every
  recorded depth is at most the maximum depth or is the depth 0 of the start URL, and
  every admitted URL has a recorded depth of at most the maximum depth.
\<close>

definition depth_bounded :: "crawl_config \<Rightarrow> string \<Rightarrow> discovery_state \<Rightarrow> bool" where
  "depth_bounded cfg start_url st =
     ((\<forall>u\<in>set (to_visit st). depth_map st u \<noteq> None)
      \<and> (\<forall>u d. depth_map st u = Some d \<longrightarrow> d \<le> max_depth cfg \<or> (u = start_url \<and> d = 0))
      \<and> (\<forall>u\<in>set (discovered st). \<exists>d. depth_map st u = Some d \<and> d \<le> max_depth cfg))"

section \<open>crawler.py: ContentCrawler\<close>

text \<open>
  The cleaner that \<open>ContentCrawler.__init__\<close> stores is a \<open>ContentCleaner\<close> or a
  \<open>ConfigurableContentCleaner\<close>.
\<close>

datatype content_cleaner = Basic cleaner | Configurable configurable_cleaner

definition crawler_clean_markdown_content ::
  "selector_extractor \<Rightarrow> content_cleaner \<Rightarrow> string \<Rightarrow> string \<Rightarrow> string \<Rightarrow> string" where
  "crawler_clean_markdown_content ext cl markdown title html =
     (case cl of
        Configurable cc \<Rightarrow>
          if html \<noteq> [] then clean_with_selectors ext cc html markdown title
          else clean_markdown_content (base cc) markdown title
      | Basic c \<Rightarrow> clean_markdown_content c markdown title)"

text \<open>
  The two dictionaries that \<open>crawl_single_url\<close> returns: the content data of a
  crawled page (without its time stamp), and the record of a failure.
\<close>

datatype crawl_record =
    Crawled (rec_url: string) (rec_title: string) (rec_description: string)
      (rec_markdown: string) (rec_content_length: nat) (rec_links_count: nat)
  | Failed (rec_url: string) (rec_error: string)

fun rec_success :: "crawl_record \<Rightarrow> bool" where
  "rec_success (Crawled u t d m n k) = True"
| "rec_success (Failed u e) = False"

record crawler_state =
  results :: "crawl_record list"
  failed_urls :: "(string \<times> string) list"

text \<open>
  What surrounds the crawler, for the task with a given index: what \<open>crawler.arun\<close>
  does, the message of the exception that creating the output path or writing the file
  raises (\<open>None\<close> when the file is written), whether the progress callback raises
  (never, when there is none), and whether writing the summary file raises.
\<close>

record crawl_env =
  arun :: "nat \<Rightarrow> arun_outcome"
  save_error :: "nat \<Rightarrow> string option"
  callback_raises :: "nat \<Rightarrow> bool"
  summary_write_fails :: bool
  extractor :: selector_extractor

definition record_failure ::
  "string \<Rightarrow> string \<Rightarrow> crawler_state \<Rightarrow> crawl_record \<times> crawler_state" where
  "record_failure url error_msg st =
     (Failed url error_msg, st\<lparr>failed_urls := failed_urls st @ [(url, error_msg)]\<rparr>)"

definition metadata_get :: "(string \<times> string) list option \<Rightarrow> string \<Rightarrow> string \<Rightarrow> string" where
  "metadata_get metadata key fallback =
     (case metadata of
        None \<Rightarrow> fallback
      | Some entries \<Rightarrow> (case map_of entries key of None \<Rightarrow> fallback | Some v \<Rightarrow> v))"

text \<open>
  The choice of a User-Agent, the headers and the proxy only shape the request. Every
  exception inside the \<open>try\<close> block is caught by its handler.
\<close>

definition crawl_single_url ::
  "crawl_env \<Rightarrow> content_cleaner \<Rightarrow> nat \<Rightarrow> string \<Rightarrow> crawler_state
     \<Rightarrow> crawl_record \<times> crawler_state" where
  "crawl_single_url env cl i url st =
     (case arun env i of
        Arun_raises e \<Rightarrow> record_failure url (''Exception: '' @ e) st
      | Arun_returns result \<Rightarrow>
          if res_success result then
            (let raw_markdown = (case res_markdown result of None \<Rightarrow> [] | Some m \<Rightarrow> m);
                 raw_html = (case res_html result of None \<Rightarrow> [] | Some h \<Rightarrow> h);
                 title = metadata_get (res_metadata result) ''title'' ''Untitled'';
                 cleaned = crawler_clean_markdown_content (extractor env) cl
                             raw_markdown title raw_html;
                 markdown_content =
                   (if length (strip cleaned) < 100 then
                      (case res_cleaned_html result of
                         Some (c # cs) \<Rightarrow>
                           ''[Note: Minimal markdown extracted, showing cleaned content]''
                             @ [NL, NL] @ (c # cs)
                       | _ \<Rightarrow>
                           if cleaned = []
                           then ''[No substantial content could be extracted from this page]''
                           else cleaned)
                    else cleaned);
                 content_data = Crawled url title
                   (metadata_get (res_metadata result) ''description'' [])
                   markdown_content (length markdown_content)
                   (case res_links result of
                      None \<Rightarrow> 0
                    | Some (internal, external) \<Rightarrow> length internal + length external)
             in (case save_error env i of
                   None \<Rightarrow> (content_data, st)
                 | Some e \<Rightarrow> record_failure url (''Exception: '' @ e) st))
          else record_failure url
                 (''Crawl failed: '' @
                    (case res_error_message result of
                       None \<Rightarrow> ''Unknown error''
                     | Some None \<Rightarrow> ''None''
                     | Some (Some m) \<Rightarrow> m))
                 st)"

text \<open>
  \<open>crawl_with_semaphore\<close> for the task \<open>i\<close>. An exception of the progress callback
  ends the task before a result is appended; \<open>gather\<close> keeps it as the task's value.
\<close>

definition crawl_with_semaphore ::
  "crawl_env \<Rightarrow> content_cleaner \<Rightarrow> string list \<Rightarrow> crawler_state \<Rightarrow> nat \<Rightarrow> crawler_state" where
  "crawl_with_semaphore env cl urls st i =
     (if length urls \<le> i \<or> callback_raises env i then st
      else (case crawl_single_url env cl i (urls ! i) st of
              (result, st') \<Rightarrow> st'\<lparr>results := results st' @ [result]\<rparr>))"

text \<open>
  The tasks run concurrently. Between the end of a fetch and the two appends of a
  task there is no point of suspension, so the tasks change the state one after the
  other, in the order in which their fetches end: the schedule, a list of task indices.
\<close>

fun run_tasks ::
  "crawl_env \<Rightarrow> content_cleaner \<Rightarrow> string list \<Rightarrow> crawler_state \<Rightarrow> nat list \<Rightarrow> crawler_state" where
  "run_tasks env cl urls st [] = st"
| "run_tasks env cl urls st (i # schedule) =
     run_tasks env cl urls (crawl_with_semaphore env cl urls st i) schedule"

record summary =
  total_urls :: nat
  successful :: nat
  failed :: nat
  total_content_length :: nat
  summary_results :: "crawl_record list"
  summary_failed_urls :: "(string \<times> string) list"

datatype io_error = IOError

definition crawl_urls ::
  "crawl_env \<Rightarrow> content_cleaner \<Rightarrow> string list \<Rightarrow> nat list
     \<Rightarrow> crawler_state \<times> (io_error + summary)" where
  "crawl_urls env cl urls schedule =
     (let st = run_tasks env cl urls \<lparr>results = [], failed_urls = []\<rparr> schedule;
          succeeded = filter rec_success (results st);
          not_succeeded = filter (\<lambda>r. \<not> rec_success r) (results st);
          s = \<lparr> total_urls = length urls,
                successful = length succeeded,
                failed = length not_succeeded,
                total_content_length = sum_list (map rec_content_length succeeded),
                summary_results = results st,
                summary_failed_urls = failed_urls st \<rparr>
      in (st, if summary_write_fails env then Inl IOError else Inr s))"

text \<open>Values for examples.\<close>

definition example_extractor :: selector_extractor where
  "example_extractor = \<lparr> extract_by_css = (\<lambda>html sel ex. []),
     extract_by_xpath = (\<lambda>html sel ex. []),
     extract_combined = (\<lambda>html css xp ex_css ex_xp. []) \<rparr>"

definition example_result :: crawl_result where
  "example_result = \<lparr> res_success = True,
     res_markdown = Some ''This page holds a paragraph with plain words.'',
     res_html = None, res_metadata = Some [(''title'', ''A page'')],
     res_links = None, res_error_message = None, res_cleaned_html = None \<rparr>"

definition example_env :: crawl_env where
  "example_env = \<lparr> arun = (\<lambda>i. if i = 2 then Arun_raises ''timeout''
                               else Arun_returns example_result),
     save_error = (\<lambda>i. None), callback_raises = (\<lambda>i. False),
     summary_write_fails = False, extractor = example_extractor \<rparr>"

definition example_urls :: "string list" where
  "example_urls = [''http://a.com/0'', ''http://a.com/1'', ''http://a.com/2'',
     ''http://a.com/3'', ''http://a.com/4'']"

section \<open>Properties of the content cleaner\<close>

subsection \<open>The first footer line ends the document\<close>

lemma contains_Nil: "contains [] s"
  by (cases s) simp_all

lemma footer_of_blank:
  assumes "is_footer_line c []"
  shows "[] \<in> set (footer_indicators c)"
proof -
  from assms obtain f where "f \<in> set (footer_indicators c)" and "contains f []"
    by (auto simp: is_footer_line_def list_ex_iff lower_def)
  then show ?thesis by simp
qed

lemma empty_indicator_footer:
  "[] \<in> set (footer_indicators c) \<Longrightarrow> is_footer_line c s"
  by (auto simp: is_footer_line_def list_ex_iff intro: contains_Nil)

lemma process_line_not_footer:
  assumes "\<not> is_footer_line c (strip l)"
  shows "\<exists>st'. process_line c title st l = Next st' \<and> in_footer st' = in_footer st"
  using assms by (simp add: process_line_def Let_def)

lemma process_line_footer:
  assumes "is_footer_line c (strip l)" and "\<not> in_footer st"
  shows "process_line c title st l = Break (st\<lparr>in_footer := True\<rparr>)
         \<or> (process_line c title st l = Next st \<and> strip l = [])"
  using assms by (simp add: process_line_def Let_def)

text \<open>
  A blank line before the content starts is skipped before the footer test. It can be a
  footer line only if the empty string is an indicator, and then every line is one.
\<close>

lemma all_footer_no_append:
  assumes "[] \<in> set (footer_indicators c)" and "\<not> in_footer st"
  shows "cleaned_lines (run_loop c title st ls) = cleaned_lines st"
  using assms(2)
proof (induction ls arbitrary: st)
  case Nil
  then show ?case by simp
next
  case (Cons l ls)
  from process_line_footer [OF empty_indicator_footer [OF assms(1)] Cons.prems, of title l]
  show ?case
  proof
    assume "process_line c title st l = Break (st\<lparr>in_footer := True\<rparr>)"
    then show ?thesis by simp
  next
    assume "process_line c title st l = Next st \<and> strip l = []"
    then show ?thesis using Cons.IH [OF Cons.prems] by simp
  qed
qed

lemma footer_line_stops:
  assumes "is_footer_line c (strip f)" and "\<not> in_footer st"
  shows "cleaned_lines (run_loop c title st (f # post)) = cleaned_lines st"
  using process_line_footer [OF assms, of title]
proof
  assume "process_line c title st f = Break (st\<lparr>in_footer := True\<rparr>)"
  then show ?thesis by simp
next
  assume a: "process_line c title st f = Next st \<and> strip f = []"
  with assms(1) have "[] \<in> set (footer_indicators c)"
    by (simp add: footer_of_blank)
  from all_footer_no_append [OF this assms(2)] a show ?thesis by simp
qed

lemma run_loop_before_footer:
  assumes "\<not> in_footer st"
  shows "cleaned_lines (run_loop c title st ls) =
         cleaned_lines (run_loop c title st
           (takeWhile (\<lambda>l. \<not> is_footer_line c (strip l)) ls))"
  using assms
proof (induction ls arbitrary: st)
  case Nil
  then show ?case by simp
next
  case (Cons l ls)
  show ?case
  proof (cases "is_footer_line c (strip l)")
    case True
    with footer_line_stops [OF True Cons.prems] show ?thesis by simp
  next
    case False
    from process_line_not_footer [OF False, of title st]
    obtain st' where st': "process_line c title st l = Next st'" "in_footer st' = in_footer st"
      by blast
    with Cons.prems have "\<not> in_footer st'" by simp
    from Cons.IH [OF this] st' False show ?thesis by simp
  qed
qed

lemma footer_example_output:
  "clean_markdown_content ContentCleaner
     (''## Guide'' @ [NL] @ ''Substantial paragraph text here that is long enough.'' @ [NL]
      @ ''Copyright 2024 All rights reserved'' @ [NL]
      @ ''More content that would have been kept'') title
   = ''Substantial paragraph text here that is long enough.''"
  by code_simp

text \<open>
  C1. For every cleaner, document and title, the output of \<open>clean_markdown_content\<close> is
  computed from the lines that precede the first line matching a footer indicator, and
  from nothing else: that line and all lines after it are discarded, whatever they
  hold. (The lines are those of the document after the unwrapping step.) For the
  four-line document of the claim the output is its second line alone, for every title.
\<close>

theorem footer_line_ends_document:
  "clean_markdown_content c markdown title =
     (if markdown = [] then markdown
      else clean_whitespace (join [NL] (cleaned_lines (run_loop c title initial_state
             (takeWhile (\<lambda>l. \<not> is_footer_line c (strip l))
                (split_on NL (unwrap markdown)))))))
   \<and> clean_markdown_content ContentCleaner
       (''## Guide'' @ [NL] @ ''Substantial paragraph text here that is long enough.'' @ [NL]
        @ ''Copyright 2024 All rights reserved'' @ [NL]
        @ ''More content that would have been kept'') title
     = ''Substantial paragraph text here that is long enough.''"
proof -
  have "\<not> in_footer initial_state" by (simp add: initial_state_def)
  from run_loop_before_footer [OF this] footer_example_output show ?thesis
    by (simp add: clean_markdown_content_def Let_def)
qed

subsection \<open>Section headings\<close>

text \<open>
  C3. The line \<open>## Installation Guide\<close> is a level-2 heading, longer than ten
  characters and without a navigation keyword. The pattern for section headings asks for a backslash
  after the \<open>#\<close> characters, so the line is not recognised: the loop body drops it and
  leaves the state as it was, and the heading is missing from the cleaned document.
\<close>

theorem section_heading_not_detected:
  "\<not> is_section_heading ''## Installation Guide''
   \<and> \<not> is_main_content_start ContentCleaner ''## Installation Guide'' title
   \<and> process_line ContentCleaner title initial_state ''## Installation Guide''
       = Next initial_state
   \<and> clean_markdown_content ContentCleaner
       (''## Installation Guide'' @ [NL] @ ''This is the first real paragraph of the page.'')
       title
     = ''This is the first real paragraph of the page.''"
  by code_simp

subsection \<open>Run-on-line repair\<close>

lemma not_contains_without_first: "a \<notin> set s \<Longrightarrow> \<not> contains (a # t) s"
  by (induction s) auto

lemma count_char_absent: "a \<notin> set s \<Longrightarrow> count_char a s = 0"
  by (induction s) (auto simp: count_char_def)

lemma add_sentence_breaks_short: "length s < 3 \<Longrightarrow> add_sentence_breaks p s = s"
  by (cases "(p, s)" rule: add_sentence_breaks.cases) simp_all

lemma add_sentence_breaks_no_period:
  "CHR ''.'' \<notin> set xs \<Longrightarrow>
     add_sentence_breaks p (xs @ ys)
       = xs @ add_sentence_breaks (if xs = [] then p else Some (last xs)) ys"
proof (induction xs arbitrary: p)
  case Nil
  then show ?case by simp
next
  case (Cons x xs)
  show ?case
  proof (cases "length (xs @ ys) < 2")
    case True
    then have "add_sentence_breaks p ((x # xs) @ ys) = (x # xs) @ ys"
      by (simp add: add_sentence_breaks_short)
    moreover from True have "add_sentence_breaks (Some (last (x # xs))) ys = ys"
      by (simp add: add_sentence_breaks_short)
    ultimately show ?thesis by simp
  next
    case False
    then obtain a b r where abr: "xs @ ys = a # b # r"
      by (cases "xs @ ys"; cases "tl (xs @ ys)") auto
    from Cons.prems have "x \<noteq> CHR ''.''" by auto
    then have "add_sentence_breaks p (x # a # b # r) = x # add_sentence_breaks (Some x) (a # b # r)"
      by simp
    with abr have "add_sentence_breaks p ((x # xs) @ ys) = x # add_sentence_breaks (Some x) (xs @ ys)"
      by simp
    also have "\<dots> = x # xs @ add_sentence_breaks (if xs = [] then Some x else Some (last xs)) ys"
      using Cons.IH [of "Some x"] Cons.prems by simp
    finally show ?thesis by simp
  qed
qed

lemma admonition_at_lower_start:
  "\<not> is_upper_AZ c \<Longrightarrow> kw \<in> set admonition_keywords \<Longrightarrow> admonition_at kw (c # cs) = None"
  by (auto simp: admonition_keywords_def admonition_at_def is_upper_AZ_def)

lemma add_admonition_breaks_no_capital:
  "\<forall>c\<in>set xs. \<not> is_upper_AZ c \<Longrightarrow>
     add_admonition_breaks p (xs @ ys)
       = xs @ add_admonition_breaks (if xs = [] then p else Some (last xs)) ys"
proof (induction xs arbitrary: p)
  case Nil
  then show ?case by simp
next
  case (Cons x xs)
  then have "\<not> is_upper_AZ x" by simp
  then have "find (\<lambda>kw. admonition_at kw (x # xs @ ys) \<noteq> None) admonition_keywords = None"
    by (simp add: find_None_iff admonition_at_lower_start)
  then have "add_admonition_breaks p ((x # xs) @ ys) = x # add_admonition_breaks (Some x) (xs @ ys)"
    by simp
  with Cons.IH [of "Some x"] Cons.prems show ?case by simp
qed

lemma section_at_lower_start:
  "\<not> is_upper_AZ c \<Longrightarrow> kw \<in> set section_starters \<Longrightarrow> section_at kw (c # cs) = None"
  by (auto simp: section_starters_def section_at_def is_upper_AZ_def)

lemma add_section_breaks_no_capital:
  "\<forall>c\<in>set xs. \<not> is_upper_AZ c \<Longrightarrow>
     add_section_breaks p (xs @ ys)
       = xs @ add_section_breaks (if xs = [] then p else Some (last xs)) ys"
proof (induction xs arbitrary: p)
  case Nil
  then show ?case by simp
next
  case (Cons x xs)
  then have "\<not> is_upper_AZ x" by simp
  then have "find (\<lambda>kw. section_at kw (x # xs @ ys) \<noteq> None) section_starters = None"
    by (simp add: find_None_iff section_at_lower_start)
  then have "add_section_breaks p ((x # xs) @ ys) = x # add_section_breaks (Some x) (xs @ ys)"
    by simp
  with Cons.IH [of "Some x"] Cons.prems show ?case by simp
qed

lemma last_concat_replicate:
  "w \<noteq> [] \<Longrightarrow> last (concat (replicate (Suc n) w)) = last w"
  by (induction n) (auto simp: last_append)

lemma repair_run_on_plain_prefix:
  assumes "xs \<noteq> []" and "CHR ''.'' \<notin> set xs" and "\<forall>c\<in>set xs. \<not> is_upper_AZ c"
  shows "repair_run_on (xs @ ys) =
         xs @ add_section_breaks (Some (last xs))
                (add_admonition_breaks (Some (last xs))
                   (add_sentence_breaks (Some (last xs)) ys))"
  using assms
  by (simp add: repair_run_on_def add_sentence_breaks_no_period
      add_admonition_breaks_no_capital add_section_breaks_no_capital)

lemma filler_facts:
  "set (concat (replicate 100 ''word '')) = set ''word ''"
  "length (concat (replicate 100 ''word '')) = 500"
  "last (concat (replicate 100 ''word '')) = CHR '' ''"
    apply (simp)
   apply (simp add: length_concat sum_list_replicate)
  using last_concat_replicate [of "''word ''" 99] apply simp
  done


lemma unwrap_filler:
  assumes "BSL \<notin> set ys" and "NL \<notin> set ys" and "0 < length ys"
  shows "unwrap (concat (replicate 100 ''word '') @ ys) =
         concat (replicate 100 ''word '') @
           add_section_breaks (Some (CHR '' ''))
             (add_admonition_breaks (Some (CHR '' ''))
                (add_sentence_breaks (Some (CHR '' '')) ys))"
proof -
  let ?F = "concat (replicate 100 ''word '')"
  have ne: "?F \<noteq> []"
    using filler_facts(2) by fastforce
  have "BSL \<notin> set (?F @ ys)" and nl: "NL \<notin> set (?F @ ys)"
    using assms by (simp_all add: filler_facts(1))
  then have a: "\<not> contains [BSL, CHR ''n''] (?F @ ys)" and b: "count_char NL (?F @ ys) = 0"
    by (simp_all add: not_contains_without_first count_char_absent)
  have c: "500 < length (?F @ ys)"
    using assms(3) by (simp add: filler_facts(2))
  have "repair_run_on (?F @ ys) =
        ?F @ add_section_breaks (Some (last ?F))
                (add_admonition_breaks (Some (last ?F))
                   (add_sentence_breaks (Some (last ?F)) ys))"
    by (rule repair_run_on_plain_prefix [OF ne]) (simp_all add: filler_facts(1) is_upper_AZ_def)
  with a b c show ?thesis
    by (simp add: unwrap_def Let_def filler_facts(3))
qed

lemma tail_without_break:
  "add_section_breaks (Some (CHR '' ''))
     (add_admonition_breaks (Some (CHR '' ''))
        (add_sentence_breaks (Some (CHR '' '')) ''Read the guide. Next topic starts here.''))
   = ''Read the guide. Next topic starts here.''"
  by code_simp

lemma tail_with_break:
  "add_section_breaks (Some (CHR '' ''))
     (add_admonition_breaks (Some (CHR '' ''))
        (add_sentence_breaks (Some (CHR '' '')) ''Read this topic. Next topic starts here.''))
   = ''Read this topic.'' @ [NL, NL] @ ''Next topic starts here.''"
  by code_simp

text \<open>
  C4. In a one-line document of 539 characters the repair inserts a break after
  \<open>topic.\<close> but none after \<open>guide.\<close>: the look-behinds reject every period that
  follows an \<open>e\<close>, a \<open>g\<close> or an \<open>i\<close>, not only those of \<open>e.g.\<close> and \<open>i.e.\<close>.
\<close>

theorem sentence_break_missing_after_e:
  "unwrap (concat (replicate 100 ''word '') @ ''Read the guide. Next topic starts here.'')
     = concat (replicate 100 ''word '') @ ''Read the guide. Next topic starts here.''
   \<and> unwrap (concat (replicate 100 ''word '') @ ''Read this topic. Next topic starts here.'')
     = concat (replicate 100 ''word '') @ ''Read this topic.'' @ [NL, NL]
       @ ''Next topic starts here.''"
proof
  have "unwrap (concat (replicate 100 ''word '') @ ''Read the guide. Next topic starts here.'')
        = concat (replicate 100 ''word '') @
           add_section_breaks (Some (CHR '' ''))
             (add_admonition_breaks (Some (CHR '' ''))
                (add_sentence_breaks (Some (CHR '' ''))
                   ''Read the guide. Next topic starts here.''))"
    by (rule unwrap_filler) simp_all
  then show "unwrap (concat (replicate 100 ''word '') @ ''Read the guide. Next topic starts here.'')
     = concat (replicate 100 ''word '') @ ''Read the guide. Next topic starts here.''"
    by (simp only: tail_without_break)
  have "unwrap (concat (replicate 100 ''word '') @ ''Read this topic. Next topic starts here.'')
        = concat (replicate 100 ''word '') @
           add_section_breaks (Some (CHR '' ''))
             (add_admonition_breaks (Some (CHR '' ''))
                (add_sentence_breaks (Some (CHR '' ''))
                   ''Read this topic. Next topic starts here.''))"
    by (rule unwrap_filler) simp_all
  then show "unwrap (concat (replicate 100 ''word '') @ ''Read this topic. Next topic starts here.'')
     = concat (replicate 100 ''word '') @ ''Read this topic.'' @ [NL, NL]
       @ ''Next topic starts here.''"
    by (simp only: tail_with_break)
qed

subsection \<open>Whitespace normalisation\<close>

text \<open>
  C5. On a document with Windows line ends, \<open>a\<close>, two empty lines, \<open>b\<close>, the lines
  are trimmed after the runs of newlines were collapsed: the first application leaves
  three newlines in a row, and the second one collapses them.
\<close>

theorem clean_whitespace_not_idempotent:
  "clean_whitespace (''a'' @ [CHR 0x0D, NL, CHR 0x0D, NL, CHR 0x0D, NL] @ ''b'')
     = ''a'' @ [NL, NL, NL] @ ''b''
   \<and> clean_whitespace (clean_whitespace
        (''a'' @ [CHR 0x0D, NL, CHR 0x0D, NL, CHR 0x0D, NL] @ ''b''))
     = ''a'' @ [NL, NL] @ ''b''"
  by code_simp


section \<open>Properties of the configurable cleaner\<close>

text \<open>
  C10. A cleaner constructed with the profile \<open>strict\<close> has \<open>min_content_length\<close> 200
  and one constructed with \<open>minimal\<close> has 50, whatever the caller passes as
  \<open>min_content_length\<close>; with \<open>moderate\<close> (as with any name other than the two) the
  caller's value is kept. \<open>clean_with_selectors\<close> cleans the selector content exactly
  when it is non-empty and at least that long, and the markdown otherwise.
\<close>

theorem cleaning_profile_sets_min_content_length:
  "min_content_length (ConfigurableContentCleaner (args\<lparr>arg_cleaning_profile := ''strict''\<rparr>)) = 200
   \<and> min_content_length (ConfigurableContentCleaner (args\<lparr>arg_cleaning_profile := ''minimal''\<rparr>)) = 50
   \<and> min_content_length (ConfigurableContentCleaner (args\<lparr>arg_cleaning_profile := ''moderate''\<rparr>))
       = arg_min_content_length args
   \<and> min_content_length (ConfigurableContentCleaner args) =
       (if arg_cleaning_profile args = ''strict'' then 200
        else if arg_cleaning_profile args = ''minimal'' then 50
        else arg_min_content_length args)
   \<and> clean_with_selectors ext (ConfigurableContentCleaner args) html markdown title =
       (let self = ConfigurableContentCleaner args;
            threshold = (if arg_cleaning_profile args = ''strict'' then 200
                         else if arg_cleaning_profile args = ''minimal'' then 50
                         else arg_min_content_length args)
        in case extract_with_selectors ext self html of
             None \<Rightarrow> clean_markdown_content (base self) markdown title
           | Some selector_content \<Rightarrow>
               if selector_content \<noteq> [] \<and> threshold \<le> int (length selector_content)
               then clean_markdown_content (base self) selector_content title
               else clean_markdown_content (base self) markdown title)"
proof -
  have m: "min_content_length (ConfigurableContentCleaner a) =
       (if arg_cleaning_profile a = ''strict'' then 200
        else if arg_cleaning_profile a = ''minimal'' then 50
        else arg_min_content_length a)" for a
    by (simp add: ConfigurableContentCleaner_def apply_cleaning_profile_def)
  have c: "clean_with_selectors ext (ConfigurableContentCleaner args) html markdown title =
       (let self = ConfigurableContentCleaner args;
            threshold = (if arg_cleaning_profile args = ''strict'' then 200
                         else if arg_cleaning_profile args = ''minimal'' then 50
                         else arg_min_content_length args)
        in case extract_with_selectors ext self html of
             None \<Rightarrow> clean_markdown_content (base self) markdown title
           | Some selector_content \<Rightarrow>
               if selector_content \<noteq> [] \<and> threshold \<le> int (length selector_content)
               then clean_markdown_content (base self) selector_content title
               else clean_markdown_content (base self) markdown title)"
    unfolding clean_with_selectors_def Let_def m by (rule refl)
  show ?thesis
    using c by (simp add: m)
qed

section \<open>Properties of the URL patterns\<close>

lemma any_pattern_matches_total:
  assumes "\<forall>p\<in>set ps. \<exists>b. rm (convert_wildcard_to_regex p) url = Inr b"
  shows "any_pattern_matches rm url ps
         = Inr (\<exists>p\<in>set ps. rm (convert_wildcard_to_regex p) url = Inr True)"
  using assms
proof (induction ps)
  case Nil
  then show ?case by simp
next
  case (Cons p ps)
  then obtain b where b: "rm (convert_wildcard_to_regex p) url = Inr b" by auto
  with Cons show ?case by (cases b) auto
qed

text \<open>
  C2. A pattern typed with a backslash reaches \<open>re.match\<close> unescaped, since
  \<open>convert_wildcard_to_regex\<close> escapes ten special characters and not the backslash.
  The exclude pattern \<open>\q\<close> becomes \<open>^\q$\<close>, which does not compile (a bad escape,
  in Python as in the model of the patterns above). For the URL \<open>x\<close>, no include list
  and this exclude list, the URL matches no exclude pattern and the include list is
  absent, yet \<open>match_url_pattern\<close> does not return true: \<open>re.match\<close> stands in no
  \<open>try\<close>, and the error leaves the function.
\<close>

theorem match_url_pattern_raises:
  "convert_wildcard_to_regex [BSL, CHR ''q''] = [CHR ''^'', BSL, CHR ''q'', CHR ''$'']
   \<and> fragment_matcher (convert_wildcard_to_regex [BSL, CHR ''q'']) ''x'' = Inl ReError
   \<and> match_url_pattern fragment_matcher ''x'' None (Some [[BSL, CHR ''q'']]) = Inl ReError
   \<and> match_url_pattern fragment_matcher ''x'' None (Some [[BSL, CHR ''q'']]) \<noteq> Inr True"
  by code_simp

text \<open>
  On the lists whose patterns all compile the function is as specified: it returns
  true if and only if the URL matches no exclude pattern and the include list is empty
  or absent or the URL matches one of its patterns. In particular a URL that matches an
  exclude pattern is rejected, whatever the include list holds.
\<close>

theorem match_url_pattern_admits:
  assumes "\<forall>p\<in>set (or_empty patterns @ or_empty exclude_patterns).
             \<exists>found. re_match_fn (convert_wildcard_to_regex p) url = Inr found"
  shows "match_url_pattern re_match_fn url patterns exclude_patterns =
           Inr ((\<forall>p\<in>set (or_empty exclude_patterns).
                   re_match_fn (convert_wildcard_to_regex p) url \<noteq> Inr True)
                \<and> (or_empty patterns = []
                   \<or> (\<exists>p\<in>set (or_empty patterns).
                        re_match_fn (convert_wildcard_to_regex p) url = Inr True)))"
proof -
  from assms have e: "any_pattern_matches re_match_fn url (or_empty exclude_patterns)
      = Inr (\<exists>p\<in>set (or_empty exclude_patterns).
               re_match_fn (convert_wildcard_to_regex p) url = Inr True)"
    by (intro any_pattern_matches_total) auto
  from assms have i: "any_pattern_matches re_match_fn url (or_empty patterns)
      = Inr (\<exists>p\<in>set (or_empty patterns).
               re_match_fn (convert_wildcard_to_regex p) url = Inr True)"
    by (intro any_pattern_matches_total) auto
  show ?thesis
    by (auto simp: match_url_pattern_def e i)
qed

lemma docs_pattern_matches: "fragment_matcher (convert_wildcard_to_regex ''**/docs/**'')
        ''https://x.com/docs/internal/page'' = Inr True"
  by code_simp
lemma docs_internal_pattern_matches: "fragment_matcher (convert_wildcard_to_regex ''**/docs/internal/**'')
        ''https://x.com/docs/internal/page'' = Inr True"
  by code_simp

theorem match_url_pattern_admits_witness:
  "match_url_pattern fragment_matcher ''https://x.com/docs/internal/page''
      (Some [''**/docs/**'']) (Some [''**/docs/internal/**'']) = Inr False
   \<and> match_url_pattern fragment_matcher ''https://x.com/docs/internal/page''
      (Some [''**/docs/**'']) None = Inr True"
proof
  have "match_url_pattern fragment_matcher ''https://x.com/docs/internal/page''
      (Some [''**/docs/**'']) (Some [''**/docs/internal/**'']) = Inr
       ((\<forall>p\<in>set (or_empty (Some [''**/docs/internal/**''])).
                   fragment_matcher (convert_wildcard_to_regex p) ''https://x.com/docs/internal/page'' \<noteq> Inr True)
                \<and> (or_empty (Some [''**/docs/**'']) = []
                   \<or> (\<exists>p\<in>set (or_empty (Some [''**/docs/**''])).
                        fragment_matcher (convert_wildcard_to_regex p) ''https://x.com/docs/internal/page'' = Inr True)))"
    by (rule match_url_pattern_admits) (auto simp: docs_pattern_matches docs_internal_pattern_matches)
  then show "match_url_pattern fragment_matcher ''https://x.com/docs/internal/page''
      (Some [''**/docs/**'']) (Some [''**/docs/internal/**'']) = Inr False"
    by (simp add: docs_pattern_matches docs_internal_pattern_matches)
  have "match_url_pattern fragment_matcher ''https://x.com/docs/internal/page''
      (Some [''**/docs/**'']) None = Inr
       ((\<forall>p\<in>set (or_empty None).
                   fragment_matcher (convert_wildcard_to_regex p) ''https://x.com/docs/internal/page'' \<noteq> Inr True)
                \<and> (or_empty (Some [''**/docs/**'']) = []
                   \<or> (\<exists>p\<in>set (or_empty (Some [''**/docs/**''])).
                        fragment_matcher (convert_wildcard_to_regex p) ''https://x.com/docs/internal/page'' = Inr True)))"
    by (rule match_url_pattern_admits) (auto simp: docs_pattern_matches)
  then show "match_url_pattern fragment_matcher ''https://x.com/docs/internal/page''
      (Some [''**/docs/**'']) None = Inr True"
    by (simp add: docs_pattern_matches)
qed

text \<open>
  C6. The claim fails at its first URL: \<open>*/blog/**\<close> compiles to \<open>^[^/]*/blog/.*$\<close>,
  and in \<open>https://x.com/a/blog/2024/post\<close> the text before \<open>/blog/\<close> contains \<open>/\<close>.
\<close>

theorem blog_pattern_counterexample:
  "\<not> (re_match (convert_wildcard_to_regex ''*/blog/**'') ''https://x.com/a/blog/2024/post''
        = Some True
      \<and> re_match (convert_wildcard_to_regex ''*/blog/**'') ''https://x.com/blog'' = Some False)"
  by code_simp

text \<open>
  C6, as amended. The pattern \<open>*/blog/**\<close> matches neither of the two URLs; the
  pattern \<open>**/blog/**\<close> matches the first one and not the second.
\<close>

theorem blog_pattern_matches_neither:
  "convert_wildcard_to_regex ''*/blog/**'' = ''^[^/]*/blog/.*$''
   \<and> re_match (convert_wildcard_to_regex ''*/blog/**'') ''https://x.com/a/blog/2024/post''
       = Some False
   \<and> re_match (convert_wildcard_to_regex ''*/blog/**'') ''https://x.com/blog'' = Some False
   \<and> re_match (convert_wildcard_to_regex ''**/blog/**'') ''https://x.com/a/blog/2024/post''
       = Some True
   \<and> re_match (convert_wildcard_to_regex ''**/blog/**'') ''https://x.com/blog'' = Some False"
  by code_simp

section \<open>Properties of URL normalisation\<close>

text \<open>
  C9. The URL \<open>http://example.com/a//\<close> is normalised to \<open>http://example.com/a/\<close>,
  which is normalised to \<open>http://example.com/a\<close>: one trailing slash is removed per
  application, so the first result is not a fixed point.
\<close>

theorem normalize_url_not_idempotent:
  "normalize_url lib ''http://example.com/a//'' None = Inr ''http://example.com/a/''
   \<and> normalize_url lib ''http://example.com/a/'' None = Inr ''http://example.com/a''"
  by code_simp



section \<open>Properties of URL discovery\<close>

lemma depth_bounded_initial: "depth_bounded cfg start_url (initial_discovery start_url)"
  by (simp add: depth_bounded_def initial_discovery_def)

lemma depth_bounded_enqueue:
  assumes "depth_bounded cfg start_url st" and "current_depth < max_depth cfg"
  shows "depth_bounded cfg start_url
           (st\<lparr>to_visit := to_visit st @ [n],
               depth_map := (depth_map st)(n \<mapsto> current_depth + 1),
               url_relationships := r\<rparr>)"
  using assms by (auto simp: depth_bounded_def)

lemma follow_links_depth_bounded:
  assumes "current_depth < max_depth cfg"
  shows "depth_bounded cfg start_url st \<Longrightarrow>
         depth_bounded cfg start_url
           (follow_links lib cfg start_url current_url current_depth st links)"
proof (induction links arbitrary: st)
  case Nil
  then show ?case by simp
next
  case (Cons link rest)
  note inv = Cons.prems
  show ?case
  proof (cases "link = []")
    case True
    with Cons show ?thesis by simp
  next
    case False
    show ?thesis
    proof (cases "normalize_url lib link (Some current_url)")
      case (Inl e)
      with False inv show ?thesis by simp
    next
      case (Inr normalized)
      show ?thesis
      proof (cases "if \<not> include_external cfg
                       then is_same_domain lib normalized start_url else Inr True")
        case (Inl e)
        with False Inr inv show ?thesis by simp
      next
        case same: (Inr same)
        show ?thesis
        proof (cases "same \<and> normalized \<notin> visited st \<and> normalized \<notin> set (to_visit st)")
          case True
          let ?st' = "st\<lparr>to_visit := to_visit st @ [normalized],
                         depth_map := (depth_map st)(normalized \<mapsto> current_depth + 1),
                         url_relationships := (url_relationships st)(current_url \<mapsto>
                           (case url_relationships st current_url of
                              None \<Rightarrow> [] | Some children \<Rightarrow> children) @ [normalized])\<rparr>"
          have "depth_bounded cfg start_url ?st'"
            by (rule depth_bounded_enqueue [OF inv assms])
          from Cons.IH [OF this] False Inr same True show ?thesis by simp
        next
          case no: False
          from Cons.IH [OF inv] False Inr same no show ?thesis by auto
        qed
      qed
    qed
  qed
qed

lemma depth_bounded_dequeue:
  "depth_bounded cfg start_url st \<Longrightarrow> to_visit st = c # rest \<Longrightarrow>
   depth_bounded cfg start_url (st\<lparr>to_visit := rest\<rparr>)"
  by (auto simp: depth_bounded_def)

lemma depth_bounded_visit:
  "depth_bounded cfg start_url st \<Longrightarrow>
   depth_bounded cfg start_url (st\<lparr>visited := v, fetched := f\<rparr>)"
  by (auto simp: depth_bounded_def)

lemma depth_bounded_admit:
  assumes "depth_bounded cfg start_url st" and "depth_map st c = Some d" and "d \<le> max_depth cfg"
  shows "depth_bounded cfg start_url (st\<lparr>discovered := List.insert c (discovered st)\<rparr>)"
  using assms by (auto simp: depth_bounded_def)

lemma discover_iteration_depth_bounded:
  assumes inv: "depth_bounded cfg start_url st"
  shows "depth_bounded cfg start_url
           (discover_iteration lib rm cfg patterns exclude_patterns start_url st outcome)"
proof (cases "to_visit st")
  case Nil
  with inv show ?thesis by (simp add: discover_iteration_def)
next
  case (Cons c rest)
  let ?st1 = "st\<lparr>to_visit := rest\<rparr>"
  let ?st2 = "?st1\<lparr>visited := insert c (visited ?st1), fetched := fetched ?st1 @ [c]\<rparr>"
  let ?st3 = "?st2\<lparr>discovered := List.insert c (discovered ?st2)\<rparr>"
  have i1: "depth_bounded cfg start_url ?st1"
    by (rule depth_bounded_dequeue [OF inv Cons])
  have i2: "depth_bounded cfg start_url ?st2"
    by (rule depth_bounded_visit [OF i1])
  from inv Cons obtain d where d: "depth_map st c = Some d"
    by (auto simp: depth_bounded_def)
  then have rd: "recorded_depth ?st1 c = d"
    by (simp add: recorded_depth_def)
  show ?thesis
  proof (cases "c \<in> visited st \<or> max_depth cfg < d")
    case True
    with Cons rd i1 show ?thesis
      by (auto simp: discover_iteration_def Let_def)
  next
    case False
    then have dle: "d \<le> max_depth cfg" and nv: "c \<notin> visited st" by auto
    have i3: "depth_bounded cfg start_url ?st3"
      by (rule depth_bounded_admit [OF i2 _ dle]) (simp add: d)
    have f2: "current_depth < max_depth cfg \<Longrightarrow> depth_bounded cfg start_url
                (follow_links lib cfg start_url c current_depth ?st2 links)"
      for current_depth links
      by (rule follow_links_depth_bounded [OF _ i2])
    have f3: "current_depth < max_depth cfg \<Longrightarrow> depth_bounded cfg start_url
                (follow_links lib cfg start_url c current_depth ?st3 links)"
      for current_depth links
      by (rule follow_links_depth_bounded [OF _ i3])
    from Cons nv dle rd i2 i3 f2 f3 show ?thesis
      by (auto simp: discover_iteration_def Let_def
               split: arun_outcome.splits sum.splits option.splits prod.splits)
  qed
qed

lemma discover_loop_depth_bounded:
  "depth_bounded cfg start_url st \<Longrightarrow>
   depth_bounded cfg start_url
     (discover_loop lib rm cfg patterns exclude_patterns start_url st outcomes)"
  by (induction outcomes arbitrary: st) (auto intro: discover_iteration_depth_bounded)

lemma follow_links_new_depth:
  "(\<forall>u\<in>set (to_visit st). u \<notin> Q \<longrightarrow> depth_map st u = Some (current_depth + 1)) \<Longrightarrow>
   (\<forall>u\<in>set (to_visit (follow_links lib cfg start_url current_url current_depth st links)).
      u \<notin> Q \<longrightarrow>
      depth_map (follow_links lib cfg start_url current_url current_depth st links) u
        = Some (current_depth + 1))"
proof (induction links arbitrary: st)
  case Nil
  then show ?case by simp
next
  case (Cons link rest)
  note p = Cons.prems
  show ?case
  proof (cases "link = []")
    case True
    with Cons show ?thesis by simp
  next
    case False
    show ?thesis
    proof (cases "normalize_url lib link (Some current_url)")
      case (Inl e)
      with False p show ?thesis by simp
    next
      case (Inr normalized)
      show ?thesis
      proof (cases "if \<not> include_external cfg
                       then is_same_domain lib normalized start_url else Inr True")
        case (Inl e)
        with False Inr p show ?thesis by simp
      next
        case same: (Inr same)
        show ?thesis
        proof (cases "same \<and> normalized \<notin> visited st \<and> normalized \<notin> set (to_visit st)")
          case True
          let ?st' = "st\<lparr>to_visit := to_visit st @ [normalized],
                         depth_map := (depth_map st)(normalized \<mapsto> current_depth + 1),
                         url_relationships := (url_relationships st)(current_url \<mapsto>
                           (case url_relationships st current_url of
                              None \<Rightarrow> [] | Some children \<Rightarrow> children) @ [normalized])\<rparr>"
          have "\<forall>u\<in>set (to_visit ?st'). u \<notin> Q \<longrightarrow> depth_map ?st' u = Some (current_depth + 1)"
            using p by auto
          from Cons.IH [OF this] False Inr same True show ?thesis by simp
        next
          case no: False
          from Cons.IH [OF p] False Inr same no show ?thesis by auto
        qed
      qed
    qed
  qed
qed

lemma discover_iteration_new_depth:
  assumes "to_visit st = c # rest"
    and "u \<in> set (to_visit (discover_iteration lib rm cfg patterns exclude_patterns start_url st outcome))"
    and "u \<notin> set rest"
  shows "depth_map (discover_iteration lib rm cfg patterns exclude_patterns start_url st outcome) u
         = Some (recorded_depth st c + 1)"
proof -
  let ?st1 = "st\<lparr>to_visit := rest\<rparr>"
  let ?st2 = "?st1\<lparr>visited := insert c (visited ?st1), fetched := fetched ?st1 @ [c]\<rparr>"
  let ?st3 = "?st2\<lparr>discovered := List.insert c (discovered ?st2)\<rparr>"
  let ?d = "recorded_depth st c"
  have rd: "recorded_depth ?st1 c = ?d"
    by (simp add: recorded_depth_def)
  have f2: "\<forall>u\<in>set (to_visit (follow_links lib cfg start_url c ?d ?st2 links)).
              u \<notin> set rest \<longrightarrow>
              depth_map (follow_links lib cfg start_url c ?d ?st2 links) u = Some (?d + 1)"
    for links
    by (rule follow_links_new_depth) simp
  have f3: "\<forall>u\<in>set (to_visit (follow_links lib cfg start_url c ?d ?st3 links)).
              u \<notin> set rest \<longrightarrow>
              depth_map (follow_links lib cfg start_url c ?d ?st3 links) u = Some (?d + 1)"
    for links
    by (rule follow_links_new_depth) simp
  from assms rd f2 f3 show ?thesis
    by (auto simp: discover_iteration_def Let_def
             split: if_splits arun_outcome.splits sum.splits option.splits prod.splits)
qed

lemma discover_iteration_abandons:
  assumes "to_visit st = c # rest" and "max_depth cfg < recorded_depth st c"
  shows "discover_iteration lib rm cfg patterns exclude_patterns start_url st outcome
         = st\<lparr>to_visit := rest\<rparr>"
  using assms by (simp add: discover_iteration_def Let_def recorded_depth_def)

text \<open>
  C7. The claim fails for a negative maximum depth: the start URL is queued with depth
  0 before any check.
\<close>

theorem seed_depth_counterexample:
  "\<not> (\<forall>u\<in>set (to_visit (discover_loop example_urllib fragment_matcher
           \<lparr>max_depth = - 1, max_pages = 50, include_external = False\<rparr> None None
           ''http://a.com'' (initial_discovery ''http://a.com'') [])).
        \<forall>d. depth_map (discover_loop example_urllib fragment_matcher
           \<lparr>max_depth = - 1, max_pages = 50, include_external = False\<rparr> None None
           ''http://a.com'' (initial_discovery ''http://a.com'') []) u = Some d
          \<longrightarrow> d \<le> max_depth \<lparr>max_depth = - 1, max_pages = 50, include_external = False\<rparr>)"
  by (simp add: initial_discovery_def)

text \<open>
  C7, as amended. After any number of passes of the discovery loop, for any behaviour
  of the collaborator: every queued URL has a recorded depth that is at most the
  maximum depth \<open>D\<close>, or it is the start URL at depth 0 (so for \<open>D \<ge> 0\<close> no queued
  URL has a depth above \<open>D\<close>), and every admitted URL has a recorded depth of at most
  \<open>D\<close>. In every pass, a URL that the pass adds to the queue is recorded with the
  depth of the dequeued URL plus one; and when the recorded depth of the dequeued URL
  exceeds \<open>D\<close> the pass only removes it from the queue: nothing is fetched, visited or
  admitted.
\<close>

theorem discovery_depths:
  "(let st = discover_loop lib rm cfg patterns exclude_patterns start_url
               (initial_discovery start_url) outcomes
    in (\<forall>u\<in>set (to_visit st). \<exists>d. depth_map st u = Some d
            \<and> (d \<le> max_depth cfg \<or> (u = start_url \<and> d = 0)))
       \<and> (0 \<le> max_depth cfg \<longrightarrow>
            (\<forall>u\<in>set (to_visit st). \<exists>d. depth_map st u = Some d \<and> d \<le> max_depth cfg))
       \<and> (\<forall>u\<in>set (discovered st). \<exists>d. depth_map st u = Some d \<and> d \<le> max_depth cfg))
   \<and> (\<forall>s c rest outcome u.
         to_visit s = c # rest
         \<and> u \<in> set (to_visit (discover_iteration lib rm cfg patterns exclude_patterns
                                start_url s outcome))
         \<and> u \<notin> set rest
         \<longrightarrow> depth_map (discover_iteration lib rm cfg patterns exclude_patterns
                          start_url s outcome) u
             = Some (recorded_depth s c + 1))
   \<and> (\<forall>s c rest outcome.
         to_visit s = c # rest \<and> max_depth cfg < recorded_depth s c
         \<longrightarrow> discover_iteration lib rm cfg patterns exclude_patterns start_url s outcome
             = s\<lparr>to_visit := rest\<rparr>)"
proof -
  let ?st = "discover_loop lib rm cfg patterns exclude_patterns start_url
               (initial_discovery start_url) outcomes"
  have inv: "depth_bounded cfg start_url ?st"
    by (rule discover_loop_depth_bounded [OF depth_bounded_initial])
  have q: "\<forall>u\<in>set (to_visit ?st). \<exists>d. depth_map ?st u = Some d
            \<and> (d \<le> max_depth cfg \<or> (u = start_url \<and> d = 0))"
    using inv unfolding depth_bounded_def by (metis option.exhaust)
  then have q0: "0 \<le> max_depth cfg \<longrightarrow>
            (\<forall>u\<in>set (to_visit ?st). \<exists>d. depth_map ?st u = Some d \<and> d \<le> max_depth cfg)"
    by fastforce
  have a: "\<forall>u\<in>set (discovered ?st). \<exists>d. depth_map ?st u = Some d \<and> d \<le> max_depth cfg"
    using inv unfolding depth_bounded_def by blast
  from q q0 a show ?thesis
    unfolding Let_def
    by (intro conjI allI impI; (elim conjE)?)
       (simp_all add: discover_iteration_new_depth discover_iteration_abandons)
qed

lemma example_queue:
  "to_visit (discover_iteration example_urllib fragment_matcher example_config None None
      ''http://a.com'' (initial_discovery ''http://a.com'') (example_page [''/x'', ''/y/'']))
   = [''http://a.com/x'', ''http://a.com/y'']"
  by code_simp

lemma example_loop_queue:
  "to_visit (discover_loop example_urllib fragment_matcher example_config None None
      ''http://a.com'' (initial_discovery ''http://a.com'') [example_page [''/x'', ''/y/'']])
   = [''http://a.com/x'', ''http://a.com/y'']"
  by code_simp

theorem discovery_depths_witness:
  "depth_map (discover_iteration example_urllib fragment_matcher example_config None None
      ''http://a.com'' (initial_discovery ''http://a.com'') (example_page [''/x'', ''/y/'']))
      ''http://a.com/x'' = Some 1
   \<and> (\<exists>d. depth_map (discover_loop example_urllib fragment_matcher example_config None None
      ''http://a.com'' (initial_discovery ''http://a.com'') [example_page [''/x'', ''/y/'']])
      ''http://a.com/y'' = Some d \<and> d \<le> 1)
   \<and> discover_iteration example_urllib fragment_matcher example_config None None
      ''http://a.com'' example_deep_state (example_page [''/z''])
     = example_deep_state\<lparr>to_visit := []\<rparr>"
proof -
  note dd = discovery_depths [of example_urllib fragment_matcher example_config None None
      "''http://a.com''" "[example_page [''/x'', ''/y/'']]", unfolded Let_def]
  have "to_visit (initial_discovery ''http://a.com'') = ''http://a.com'' # []"
    by (simp add: initial_discovery_def)
  moreover have "''http://a.com/x'' \<in> set (to_visit (discover_iteration example_urllib
      fragment_matcher example_config None None ''http://a.com''
      (initial_discovery ''http://a.com'') (example_page [''/x'', ''/y/''])))"
    by (simp add: example_queue)
  moreover have "''http://a.com/x'' \<notin> set []"
    by simp
  ultimately have "depth_map (discover_iteration example_urllib fragment_matcher example_config
      None None ''http://a.com'' (initial_discovery ''http://a.com'')
      (example_page [''/x'', ''/y/''])) ''http://a.com/x''
      = Some (recorded_depth (initial_discovery ''http://a.com'') ''http://a.com'' + 1)"
    using dd by blast
  then have one: "depth_map (discover_iteration example_urllib fragment_matcher example_config
      None None ''http://a.com'' (initial_discovery ''http://a.com'')
      (example_page [''/x'', ''/y/''])) ''http://a.com/x'' = Some 1"
    by (simp add: recorded_depth_def initial_discovery_def)
  have "(0::int) \<le> max_depth example_config"
    by (simp add: example_config_def)
  with dd have "\<forall>u\<in>set (to_visit (discover_loop example_urllib fragment_matcher
      example_config None None ''http://a.com'' (initial_discovery ''http://a.com'')
      [example_page [''/x'', ''/y/'']])).
      \<exists>d. depth_map (discover_loop example_urllib fragment_matcher
      example_config None None ''http://a.com'' (initial_discovery ''http://a.com'')
      [example_page [''/x'', ''/y/'']]) u = Some d \<and> d \<le> max_depth example_config"
    by blast
  moreover have "''http://a.com/y'' \<in> set (to_visit (discover_loop example_urllib
      fragment_matcher example_config None None ''http://a.com''
      (initial_discovery ''http://a.com'') [example_page [''/x'', ''/y/'']]))"
    unfolding example_loop_queue by simp
  moreover have "max_depth example_config = 1"
    by (simp add: example_config_def)
  ultimately have two: "\<exists>d. depth_map (discover_loop example_urllib fragment_matcher
      example_config None None ''http://a.com'' (initial_discovery ''http://a.com'')
      [example_page [''/x'', ''/y/'']]) ''http://a.com/y'' = Some d \<and> d \<le> 1"
    by metis
  have "to_visit example_deep_state = ''http://a.com/deep'' # []"
    and "max_depth example_config < recorded_depth example_deep_state ''http://a.com/deep''"
    by (simp_all add: example_deep_state_def example_config_def recorded_depth_def)
  with dd have three: "discover_iteration example_urllib fragment_matcher example_config
      None None ''http://a.com'' example_deep_state (example_page [''/z''])
     = example_deep_state\<lparr>to_visit := []\<rparr>"
    by blast
  from one two three show ?thesis by blast
qed


section \<open>Properties of the batch crawl\<close>

lemma crawl_single_url_cases:
  "(\<exists>t d m n k. crawl_single_url env cl i url st = (Crawled url t d m n k, st)
       \<and> (\<exists>result. arun env i = Arun_returns result \<and> res_success result))
   \<or> (\<exists>msg. crawl_single_url env cl i url st = record_failure url msg st)"
  by (auto simp: crawl_single_url_def Let_def split: arun_outcome.splits option.splits)

lemma crawl_single_url_fetch_failure:
  assumes "\<forall>result. arun env i = Arun_returns result \<longrightarrow> \<not> res_success result"
  shows "\<exists>msg. crawl_single_url env cl i url st = record_failure url msg st"
  using crawl_single_url_cases [of env cl i url st] assms by auto

lemma crawl_with_semaphore_appends:
  assumes "i < length urls" and "\<not> callback_raises env i"
  shows "\<exists>r. rec_url r = urls ! i
           \<and> results (crawl_with_semaphore env cl urls st i) = results st @ [r]
           \<and> set (failed_urls st) \<subseteq> set (failed_urls (crawl_with_semaphore env cl urls st i))
           \<and> ((\<forall>result. arun env i = Arun_returns result \<longrightarrow> \<not> res_success result) \<longrightarrow>
                (\<exists>msg. r = Failed (urls ! i) msg
                   \<and> (urls ! i, msg) \<in> set (failed_urls (crawl_with_semaphore env cl urls st i))))"
proof -
  from crawl_single_url_cases [of env cl i "urls ! i" st]
  show ?thesis
  proof
    assume "\<exists>t d m n k. crawl_single_url env cl i (urls ! i) st = (Crawled (urls ! i) t d m n k, st)
       \<and> (\<exists>result. arun env i = Arun_returns result \<and> res_success result)"
    with assms show ?thesis
      by (auto simp: crawl_with_semaphore_def)
  next
    assume "\<exists>msg. crawl_single_url env cl i (urls ! i) st = record_failure (urls ! i) msg st"
    with assms show ?thesis
      by (auto simp: crawl_with_semaphore_def record_failure_def)
  qed
qed

lemma crawl_with_semaphore_grows:
  "set (results st) \<subseteq> set (results (crawl_with_semaphore env cl urls st i))
   \<and> set (failed_urls st) \<subseteq> set (failed_urls (crawl_with_semaphore env cl urls st i))"
  using crawl_single_url_cases [of env cl i "urls ! i" st]
  by (auto simp: crawl_with_semaphore_def record_failure_def)

lemma run_tasks_grows:
  "set (results st) \<subseteq> set (results (run_tasks env cl urls st schedule))
   \<and> set (failed_urls st) \<subseteq> set (failed_urls (run_tasks env cl urls st schedule))"
proof (induction schedule arbitrary: st)
  case Nil
  then show ?case by simp
next
  case (Cons i schedule)
  from Cons [of "crawl_with_semaphore env cl urls st i"]
    crawl_with_semaphore_grows [of st env cl urls i]
  show ?case by auto
qed

lemma run_tasks_urls:
  assumes "\<forall>i\<in>set schedule. i < length urls \<and> \<not> callback_raises env i"
  shows "map rec_url (results (run_tasks env cl urls st schedule))
         = map rec_url (results st) @ map (\<lambda>i. urls ! i) schedule"
  using assms
proof (induction schedule arbitrary: st)
  case Nil
  then show ?case by simp
next
  case (Cons i schedule)
  then have "i < length urls" and "\<not> callback_raises env i" by auto
  from crawl_with_semaphore_appends [OF this, of cl st]
  obtain r where "rec_url r = urls ! i"
    and "results (crawl_with_semaphore env cl urls st i) = results st @ [r]"
    by blast
  with Cons.IH [of "crawl_with_semaphore env cl urls st i"] Cons.prems
  show ?case by simp
qed

lemma run_tasks_failure_recorded:
  assumes "\<forall>j\<in>set schedule. j < length urls \<and> \<not> callback_raises env j"
    and "i \<in> set schedule"
    and "\<forall>result. arun env i = Arun_returns result \<longrightarrow> \<not> res_success result"
  shows "\<exists>msg. Failed (urls ! i) msg \<in> set (results (run_tasks env cl urls st schedule))
           \<and> (urls ! i, msg) \<in> set (failed_urls (run_tasks env cl urls st schedule))"
  using assms(1,2)
proof (induction schedule arbitrary: st)
  case Nil
  then show ?case by simp
next
  case (Cons j schedule)
  show ?case
  proof (cases "j = i")
    case True
    from Cons.prems have "i < length urls" and "\<not> callback_raises env i"
      using True by auto
    from crawl_with_semaphore_appends [OF this, of cl st] assms(3)
    obtain msg where "Failed (urls ! i) msg \<in> set (results (crawl_with_semaphore env cl urls st i))"
      and "(urls ! i, msg) \<in> set (failed_urls (crawl_with_semaphore env cl urls st i))"
      by fastforce
    with run_tasks_grows [of "crawl_with_semaphore env cl urls st i" env cl urls schedule] True
    show ?thesis by auto
  next
    case False
    with Cons.prems have "i \<in> set schedule" by simp
    with Cons.IH [of "crawl_with_semaphore env cl urls st j"] Cons.prems
    show ?thesis by simp
  qed
qed

lemma schedule_visits_all:
  assumes "mset schedule = mset [0..<n]"
  shows "set schedule = {0..<n}" and "mset (map (\<lambda>i. urls ! i) schedule) = mset (map (\<lambda>i. urls ! i) [0..<n])"
proof -
  from assms have "set_mset (mset schedule) = set_mset (mset [0..<n])" by simp
  then show "set schedule = {0..<n}" by simp
  from assms show "mset (map (\<lambda>i. urls ! i) schedule) = mset (map (\<lambda>i. urls ! i) [0..<n])"
    by (metis mset_map)
qed

text \<open>
  C8. Let the tasks end in any order, and let the progress callback not raise. Then
  \<open>crawl_urls\<close> records exactly one result for every URL of the list, whatever the
  fetches do: a fetch that raises or reports failure gives a failure record for its URL,
  also entered in \<open>failed_urls\<close>, and the other URLs are processed all the same. When
  the summary file can be written, the summary is returned and its counts of successful
  and failed results add up to the number of URLs.
\<close>

theorem crawl_urls_records_every_url:
  assumes "mset schedule = mset [0..<length urls]"
    and "\<forall>i<length urls. \<not> callback_raises env i"
  shows "length (results (fst (crawl_urls env cl urls schedule))) = length urls
    \<and> mset (map rec_url (results (fst (crawl_urls env cl urls schedule)))) = mset urls
    \<and> (\<forall>i<length urls.
          (\<forall>result. arun env i = Arun_returns result \<longrightarrow> \<not> res_success result) \<longrightarrow>
          (\<exists>msg. Failed (urls ! i) msg \<in> set (results (fst (crawl_urls env cl urls schedule)))
             \<and> (urls ! i, msg) \<in> set (failed_urls (fst (crawl_urls env cl urls schedule)))))
    \<and> (\<not> summary_write_fails env \<longrightarrow>
          (\<exists>s. snd (crawl_urls env cl urls schedule) = Inr s
             \<and> total_urls s = length urls
             \<and> successful s + failed s = length urls
             \<and> summary_results s = results (fst (crawl_urls env cl urls schedule))
             \<and> summary_failed_urls s = failed_urls (fst (crawl_urls env cl urls schedule))))"
proof -
  let ?st = "run_tasks env cl urls \<lparr>results = [], failed_urls = []\<rparr> schedule"
  have fst_eq: "fst (crawl_urls env cl urls schedule) = ?st"
    by (simp add: crawl_urls_def Let_def)
  from schedule_visits_all [OF assms(1)] have sched: "set schedule = {0..<length urls}"
    and perm: "mset (map (\<lambda>i. urls ! i) schedule) = mset (map (\<lambda>i. urls ! i) [0..<length urls])"
    by blast+
  from sched assms(2) have ok: "\<forall>i\<in>set schedule. i < length urls \<and> \<not> callback_raises env i"
    by simp
  have urls_of: "map rec_url (results ?st) = map (\<lambda>i. urls ! i) schedule"
    using run_tasks_urls [OF ok, of cl "\<lparr>results = [], failed_urls = []\<rparr>"] by simp
  have "mset (map rec_url (results ?st)) = mset (map (\<lambda>i. urls ! i) [0..<length urls])"
    by (simp only: urls_of perm)
  also have "map (\<lambda>i. urls ! i) [0..<length urls] = urls"
    by (rule map_nth)
  finally have m: "mset (map rec_url (results ?st)) = mset urls" .
  then have "size (mset (map rec_url (results ?st))) = size (mset urls)"
    by simp
  then have len: "length (results ?st) = length urls"
    by simp
  have fail: "\<forall>i<length urls.
          (\<forall>result. arun env i = Arun_returns result \<longrightarrow> \<not> res_success result) \<longrightarrow>
          (\<exists>msg. Failed (urls ! i) msg \<in> set (results ?st)
             \<and> (urls ! i, msg) \<in> set (failed_urls ?st))"
    using run_tasks_failure_recorded [OF ok] sched by simp
  have sum: "\<not> summary_write_fails env \<longrightarrow>
          (\<exists>s. snd (crawl_urls env cl urls schedule) = Inr s
             \<and> total_urls s = length urls
             \<and> successful s + failed s = length urls
             \<and> summary_results s = results ?st
             \<and> summary_failed_urls s = failed_urls ?st)"
    using len by (simp add: crawl_urls_def Let_def sum_length_filter_compl)
  from len m fail sum show ?thesis
    unfolding fst_eq by blast
qed

lemma example_crawl:
  "crawl_urls example_env (Basic ContentCleaner) example_urls [1, 0, 3, 2, 4]
     = (\<lparr> results =
            [Crawled ''http://a.com/1'' ''A page'' []
               ''This page holds a paragraph with plain words.'' 45 0,
             Crawled ''http://a.com/0'' ''A page'' []
               ''This page holds a paragraph with plain words.'' 45 0,
             Crawled ''http://a.com/3'' ''A page'' []
               ''This page holds a paragraph with plain words.'' 45 0,
             Failed ''http://a.com/2'' ''Exception: timeout'',
             Crawled ''http://a.com/4'' ''A page'' []
               ''This page holds a paragraph with plain words.'' 45 0],
          failed_urls = [(''http://a.com/2'', ''Exception: timeout'')] \<rparr>,
        Inr \<lparr> total_urls = 5, successful = 4, failed = 1, total_content_length = 180,
              summary_results =
                [Crawled ''http://a.com/1'' ''A page'' []
                   ''This page holds a paragraph with plain words.'' 45 0,
                 Crawled ''http://a.com/0'' ''A page'' []
                   ''This page holds a paragraph with plain words.'' 45 0,
                 Crawled ''http://a.com/3'' ''A page'' []
                   ''This page holds a paragraph with plain words.'' 45 0,
                 Failed ''http://a.com/2'' ''Exception: timeout'',
                 Crawled ''http://a.com/4'' ''A page'' []
                   ''This page holds a paragraph with plain words.'' 45 0],
              summary_failed_urls = [(''http://a.com/2'', ''Exception: timeout'')] \<rparr>)"
  by code_simp

theorem crawl_urls_records_every_url_witness:
  "length (results (fst (crawl_urls example_env (Basic ContentCleaner) example_urls
      [1, 0, 3, 2, 4]))) = 5
   \<and> (\<exists>s. snd (crawl_urls example_env (Basic ContentCleaner) example_urls [1, 0, 3, 2, 4])
            = Inr s
          \<and> successful s = 4 \<and> failed s = 1 \<and> successful s + failed s = 5
          \<and> summary_failed_urls s = [(''http://a.com/2'', ''Exception: timeout'')])
   \<and> (\<exists>msg. Failed ''http://a.com/2'' msg
          \<in> set (results (fst (crawl_urls example_env (Basic ContentCleaner) example_urls
                [1, 0, 3, 2, 4]))))"
proof -
  have "[0..<length example_urls] = [0, 1, 2, 3, 4]"
    by code_simp
  then have sched: "mset [1, 0, 3, 2, 4] = mset [0..<length example_urls]"
    by (simp add: add_mset_commute)
  have cb: "\<forall>i<length example_urls. \<not> callback_raises example_env i"
    by (simp add: example_env_def)
  have n: "length example_urls = 5"
    by (simp add: example_urls_def)
  have wr: "\<not> summary_write_fails example_env"
    by (simp add: example_env_def)
  have two: "(2::nat) < length example_urls"
    and bad: "\<forall>result. arun example_env 2 = Arun_returns result \<longrightarrow> \<not> res_success result"
    and u2: "example_urls ! 2 = ''http://a.com/2''"
    by (simp_all add: example_urls_def example_env_def)
  note t = crawl_urls_records_every_url [OF sched cb, of "Basic ContentCleaner"]
  from t n have one: "length (results (fst (crawl_urls example_env (Basic ContentCleaner)
      example_urls [1, 0, 3, 2, 4]))) = 5"
    by simp
  from t wr obtain s where s: "snd (crawl_urls example_env (Basic ContentCleaner) example_urls
        [1, 0, 3, 2, 4]) = Inr s"
    and total: "successful s + failed s = length example_urls"
    and fu: "summary_failed_urls s = failed_urls (fst (crawl_urls example_env
        (Basic ContentCleaner) example_urls [1, 0, 3, 2, 4]))"
    by blast
  from example_crawl s have "successful s = 4" and "failed s = 1"
    by auto
  with s total n fu example_crawl have summary: "\<exists>s. snd (crawl_urls example_env
        (Basic ContentCleaner) example_urls [1, 0, 3, 2, 4]) = Inr s
          \<and> successful s = 4 \<and> failed s = 1 \<and> successful s + failed s = 5
          \<and> summary_failed_urls s = [(''http://a.com/2'', ''Exception: timeout'')]"
    by simp
  from t two bad have "\<exists>msg. Failed (example_urls ! 2) msg
          \<in> set (results (fst (crawl_urls example_env (Basic ContentCleaner) example_urls
                [1, 0, 3, 2, 4])))"
    by blast
  with u2 have three: "\<exists>msg. Failed ''http://a.com/2'' msg
          \<in> set (results (fst (crawl_urls example_env (Basic ContentCleaner) example_urls
                [1, 0, 3, 2, 4])))"
    by simp
  from one summary three show ?thesis by blast
qed

end
